theory Spec2Isabelle
  imports Complex_Main "HOL-Library.AList"
begin

section \<open>Python primitives used by \<^verbatim>\<open>scripts/leaderboard.py\<close>\<close>

text \<open>
  Strings are lists of 8-bit characters. The exceptions the script can raise are values of
  \<open>error\<close>; a call either returns \<open>Inr\<close> of its result or \<open>Inl\<close> of the exception.
  The script defines no exception class of its own: it raises \<^verbatim>\<open>RuntimeError\<close> itself and
  otherwise fails with the built-in exceptions of the operations it uses, and with
  \<^verbatim>\<open>MlflowException\<close> when the tracking service answers a call with an error.
\<close>

datatype error =
    RuntimeError string
  | IndexError
  | KeyError string
  | AttributeError
  | TimeoutExpired
  | MlflowException

text \<open>\<^verbatim>\<open>s.split(c)\<close> for a separator of one character: one more piece than separators.\<close>

fun py_split :: "char \<Rightarrow> string \<Rightarrow> string list" where
  "py_split c [] = [[]]"
| "py_split c (x # xs) =
     (if x = c then [] # py_split c xs
      else (case py_split c xs of [] \<Rightarrow> [[x]] | t # ts \<Rightarrow> (x # t) # ts))"

text \<open>\<^verbatim>\<open>c.join(ts)\<close>.\<close>

fun py_join :: "char \<Rightarrow> string list \<Rightarrow> string" where
  "py_join c [] = []"
| "py_join c [t] = t"
| "py_join c (t # u # ts) = t @ c # py_join c (u # ts)"

text \<open>\<^verbatim>\<open>xs[i]\<close> for a non-negative index: out of range raises \<^verbatim>\<open>IndexError\<close>.\<close>

definition py_index :: "'a list \<Rightarrow> nat \<Rightarrow> error + 'a" where
  "py_index xs i = (if i < length xs then Inr (xs ! i) else Inl IndexError)"

text \<open>\<^verbatim>\<open>s[1:-1]\<close>: slicing never raises; a string shorter than two characters gives \<open>''''\<close>.\<close>

definition slice_1_m1 :: "'a list \<Rightarrow> 'a list" where
  "slice_1_m1 s = butlast (tl s)"

text \<open>\<^verbatim>\<open>xs[:-2]\<close>: all but the last two elements, the empty list when there are fewer.\<close>

definition slice_to_m2 :: "'a list \<Rightarrow> 'a list" where
  "slice_to_m2 xs = take (length xs - 2) xs"

text \<open>\<^verbatim>\<open>p in s\<close> on strings: \<open>p\<close> occurs in \<open>s\<close> as a contiguous block.\<close>

fun py_in :: "string \<Rightarrow> string \<Rightarrow> bool" where
  "py_in p [] = (p = [])"
| "py_in p (x # xs) = (take (length p) (x # xs) = p \<or> py_in p xs)"

text \<open>
  \<^verbatim>\<open>str(n)\<close> for a non-negative integer, as an f-string formats a loop index. Digits are
  read from a table; \<open>digit_char\<close> is only applied below 10 and the table below 16.
\<close>

definition hexdigits :: string where
  "hexdigits = ''0123456789abcdef''"

definition digit_char :: "nat \<Rightarrow> char" where
  "digit_char d = hexdigits ! d"

fun str_nat :: "nat \<Rightarrow> string" where
  "str_nat n = (if n < 10 then [digit_char n] else str_nat (n div 10) @ [digit_char (n mod 10)])"

declare str_nat.simps [simp del]

text \<open>
  \<^verbatim>\<open>str(outs)\<close> where \<open>outs\<close> is a \<^verbatim>\<open>bytes\<close> object (the pipe of \<^verbatim>\<open>Popen\<close> is opened in
  binary mode) is the literal form of the bytes: the prefix \<^verbatim>\<open>b\<close>, a quote, every byte
  either as itself or escaped, and the closing quote. The quote is \<^verbatim>\<open>'\<close> unless the
  bytes hold a \<^verbatim>\<open>'\<close> and no \<^verbatim>\<open>"\<close>.
\<close>

definition bytes_quote :: "string \<Rightarrow> char" where
  "bytes_quote bs =
     (if CHR 0x27 \<in> set bs \<and> CHR 0x22 \<notin> set bs then CHR 0x22 else CHR 0x27)"

definition escape_byte :: "char \<Rightarrow> char \<Rightarrow> string" where
  "escape_byte q c =
     (if c = q \<or> c = CHR 0x5C then [CHR 0x5C, c]
      else if c = CHR 0x09 then [CHR 0x5C, CHR ''t'']
      else if c = CHR 0x0A then [CHR 0x5C, CHR ''n'']
      else if c = CHR 0x0D then [CHR 0x5C, CHR ''r'']
      else if (of_char c :: nat) < 32 \<or> 127 \<le> (of_char c :: nat)
        then [CHR 0x5C, CHR ''x'', hexdigits ! (of_char c div 16), hexdigits ! (of_char c mod 16)]
      else [c])"

definition str_bytes :: "string \<Rightarrow> string" where
  "str_bytes bs =
     (let q = bytes_quote bs in CHR ''b'' # q # concat (map (escape_byte q) bs) @ [q])"

text \<open>
  A \<^verbatim>\<open>dict\<close> is an association list in insertion order. \<open>AList.update\<close> is
  \<^verbatim>\<open>d[k] = v\<close>: it overwrites in place or appends a new key; \<open>map_of\<close> is the lookup.
  A dict comprehension and \<^verbatim>\<open>dict.update\<close> insert their items one after the other.
\<close>

definition dict_of :: "('k \<times> 'v) list \<Rightarrow> ('k \<times> 'v) list" where
  "dict_of kvs = fold (\<lambda>(k, v) d. AList.update k v d) kvs []"

definition dict_update :: "('k \<times> 'v) list \<Rightarrow> ('k \<times> 'v) list \<Rightarrow> ('k \<times> 'v) list" where
  "dict_update d kvs = fold (\<lambda>(k, v) d. AList.update k v d) kvs d"

text \<open>
  A float is a real number or the not-a-number value; rounding and the infinities are
  left out. \<^verbatim>\<open>np.mean\<close> of an empty sequence does not raise: it warns and returns
  \<^verbatim>\<open>nan\<close>. \<^verbatim>\<open>np.var\<close> is the mean of the squared distances to the mean.
\<close>

datatype pyfloat = Num real | NaN

fun num_values :: "pyfloat list \<Rightarrow> real list option" where
  "num_values [] = Some []"
| "num_values (NaN # v) = None"
| "num_values (Num x # v) = (case num_values v of None \<Rightarrow> None | Some xs \<Rightarrow> Some (x # xs))"

definition np_mean :: "pyfloat list \<Rightarrow> pyfloat" where
  "np_mean v =
     (case num_values v of
        None \<Rightarrow> NaN
      | Some xs \<Rightarrow> if xs = [] then NaN else Num (sum_list xs / real (length xs)))"

definition np_var :: "pyfloat list \<Rightarrow> pyfloat" where
  "np_var v =
     (case num_values v of
        None \<Rightarrow> NaN
      | Some xs \<Rightarrow>
          if xs = [] then NaN
          else (let m = sum_list xs / real (length xs)
                in Num (sum_list (map (\<lambda>x. \<bar>x - m\<bar> ^ 2) xs) / real (length xs))))"

section \<open>The data of the script\<close>

text \<open>The fields of a \<^verbatim>\<open>Leaderboard\<close> object.\<close>

record leaderboard =
  trainer_path :: string
  dataset_type :: string
  run_name :: string
  bundle_size :: int
  leader_boards :: "string list"
  verbose :: bool

text \<open>
  The module \<^verbatim>\<open>env\<close> is not part of the sources: its constants are parameters. \<open>lsf_out\<close>
  is the value of \<^verbatim>\<open>Path.home().joinpath("lsf").joinpath("%J").as_posix()\<close> and \<open>now\<close> that of
  \<^verbatim>\<open>datetime.datetime.now().isoformat()\<close>.
\<close>

record env =
  DISCOMAN_V10_PATH :: string
  KITTI_PATH :: string
  TUM_PATH :: string
  TRACKING_URI :: string
  PROJECT_PATH :: string
  lsf_out :: string
  now :: string

text \<open>A run of the tracking service: its name, its parameters and its metrics.\<close>

record run =
  tag_name :: string
  params :: "(string \<times> string) list"
  metrics :: "(string \<times> pyfloat) list"

text \<open>The records sent to the logger \<^verbatim>\<open>leaderboard\<close>, one constructor per call site.\<close>

datatype log_record =
    StartedSubmitting string
  | RunningCommand string
  | StartedJobs string "string set"
  | StillRunning string "string set"
  | AllFinished string
  | AveragingMetrics string
  | LoggedException error

text \<open>
  The calls of \<open>average_metrics\<close> that write to the tracking service, lines 157 to 167 of
  the script, with their arguments.
\<close>

datatype mlflow_call =
    Set_experiment string
  | Start_run string
  | Log_param string string
  | Log_metrics "(string \<times> pyfloat) list"

text \<open>
  What the script acts on: the command lines handed to the shell for submission, in order;
  the number of status queries made; the seconds spent in \<^verbatim>\<open>time.sleep\<close>; the tracking
  service, an experiment name mapped to its runs in the order \<^verbatim>\<open>list_run_infos\<close> returns
  them (latest first); the writing calls that the tracking service answers with an
  exception; and the log records.
\<close>

record world =
  submitted :: "string list"
  polls :: nat
  slept :: nat
  tracking :: "string \<rightharpoonup> run list"
  refuses :: "mlflow_call \<Rightarrow> bool"
  log :: "log_record list"

definition logger_info :: "log_record \<Rightarrow> world \<Rightarrow> world" where
  "logger_info r w = w\<lparr>log := log w @ [r]\<rparr>"

text \<open>
  The outcome of \<^verbatim>\<open>Popen(cmd, ...).communicate(timeout=4)\<close>: the bytes of the standard output,
  or no answer within the four seconds, which raises \<^verbatim>\<open>TimeoutExpired\<close>.
\<close>

datatype communicate = Outs string | Timeout

section \<open>Submission\<close>

definition get_lsf_command :: "leaderboard \<Rightarrow> env \<Rightarrow> string \<Rightarrow> string \<Rightarrow> error + string" where
  "get_lsf_command self e d_type rn =
     (case (if d_type = ''discoman_v10'' then Inr (DISCOMAN_V10_PATH e)
            else if d_type = ''discoman_debug'' then Inr (DISCOMAN_V10_PATH e)
            else if d_type = ''kitti_4/6'' then Inr (KITTI_PATH e)
            else if d_type = ''tum'' then Inr (TUM_PATH e)
            else if d_type = ''tum_debug'' then Inr (TUM_PATH e)
            else Inl (RuntimeError ''Unknown dataset_type'')) of
        Inl err \<Rightarrow> Inl err
      | Inr dataset_root \<Rightarrow>
          Inr (py_join CHR '' ''
            [''bsub'',
             ''-o '' @ lsf_out e,
             ''-gpu '' @ [CHR 0x22] @ ''num=1:mode=exclusive_process'' @ [CHR 0x22],
             ''python'',
             ''-m [airugpub02, airugpua06, airugpua09, airugpua10]'' @ trainer_path self,
             ''--dataset_root '' @ dataset_root,
             ''--dataset_type '' @ d_type,
             ''--run_name '' @ rn]))"

text \<open>
  Line 81 of the script, \<^verbatim>\<open>str(outs).split(' ')[1][1:-1]\<close>: the index raises \<^verbatim>\<open>IndexError\<close>
  when the text has no space.
\<close>

definition job_id_of :: "string \<Rightarrow> error + string" where
  "job_id_of outs =
     (case py_index (py_split CHR '' '' (str_bytes outs)) 1 of
        Inl err \<Rightarrow> Inl err
      | Inr tok \<Rightarrow> Inr (slice_1_m1 tok))"

text \<open>
  \<open>submit_job\<close>, with the outcome \<open>p\<close> of its call of the scheduler. The command is built
  first; the call is made whatever the outcome turns out to be.
\<close>

definition submit_job ::
  "leaderboard \<Rightarrow> env \<Rightarrow> string \<Rightarrow> nat \<Rightarrow> communicate \<Rightarrow> world \<Rightarrow> (error + string) \<times> world" where
  "submit_job self e d_type bundle_id p w =
     (case get_lsf_command self e d_type (run_name self @ ''_b_'' @ str_nat bundle_id) of
        Inl err \<Rightarrow> (Inl err, w)
      | Inr cmd \<Rightarrow>
          (let w1 = logger_info (RunningCommand cmd) w;
               w2 = w1\<lparr>submitted := submitted w1 @ [cmd]\<rparr>
           in case p of
                Timeout \<Rightarrow> (Inl TimeoutExpired, w2)
              | Outs outs \<Rightarrow> (job_id_of outs, w2)))"

text \<open>
  The loop \<^verbatim>\<open>for b in range(self.bundle_size)\<close> of \<^verbatim>\<open>submit_bundle\<close>; \<open>bsub b\<close> is the
  outcome of the submission with bundle index \<open>b\<close>. An exception of \<open>submit_job\<close> leaves
  the loop and the jobs already submitted stay submitted.
\<close>

fun submit_jobs ::
  "leaderboard \<Rightarrow> env \<Rightarrow> (nat \<Rightarrow> communicate) \<Rightarrow> string \<Rightarrow> nat list \<Rightarrow> string set \<Rightarrow> world
     \<Rightarrow> (error + string set) \<times> world" where
  "submit_jobs self e bsub d_type [] started_jobs_id w = (Inr started_jobs_id, w)"
| "submit_jobs self e bsub d_type (b # bs) started_jobs_id w =
     (case submit_job self e d_type b (bsub b) w of
        (Inl err, w') \<Rightarrow> (Inl err, w')
      | (Inr job_id, w') \<Rightarrow> submit_jobs self e bsub d_type bs (insert job_id started_jobs_id) w')"

text \<open>\<^verbatim>\<open>range(n)\<close> for a Python integer: empty when \<open>n\<close> is not positive.\<close>

definition py_range :: "int \<Rightarrow> nat list" where
  "py_range n = [0..<nat n]"

section \<open>Waiting for a bundle\<close>

text \<open>
  \<open>bjobs i\<close> is the decoded standard output of the \<open>i\<close>-th status query. Its first line is
  a header and its last piece, after the final line break, is dropped; the identifier of
  a job is the text of its line up to the first space. \<^verbatim>\<open>split\<close> never returns an empty
  list, so \<^verbatim>\<open>[0]\<close> cannot fail.
\<close>

definition job_ids :: "string \<Rightarrow> string set" where
  "job_ids text =
     (let outs = py_split CHR 0x0A text
      in set (map (\<lambda>i. hd (py_split CHR '' '' (outs ! i))) [1..<length outs - 1]))"

text \<open>
  The loop \<^verbatim>\<open>while not finished\<close>. It has no bound: when every query shows a started job,
  it never returns, which is the value \<open>None\<close>.
\<close>

partial_function (option) wait_jobs ::
  "string \<Rightarrow> string set \<Rightarrow> (nat \<Rightarrow> string) \<Rightarrow> nat \<Rightarrow> world \<Rightarrow> world option" where
  "wait_jobs d_type started_jobs_id bjobs i w =
     (let still_running_jobs = started_jobs_id \<inter> job_ids (bjobs i);
          w1 = logger_info (StillRunning d_type still_running_jobs) (w\<lparr>polls := polls w + 1\<rparr>)
      in if still_running_jobs \<noteq> {}
         then wait_jobs d_type started_jobs_id bjobs (Suc i) (w1\<lparr>slept := slept w1 + 10\<rparr>)
         else Some (logger_info (AllFinished d_type) w1))"

section \<open>Aggregation\<close>

text \<open>
  The base name of a run, lines 178 and 179 of the script: the recorded parameter
  \<^verbatim>\<open>run_name\<close> split at \<^verbatim>\<open>_\<close>, without its last two pieces, joined again.
\<close>

definition base_run_name :: "string \<Rightarrow> string" where
  "base_run_name p = py_join CHR ''_'' (slice_to_m2 (py_split CHR ''_'' p))"

text \<open>\<^verbatim>\<open>not model_name\<close> holds for \<^verbatim>\<open>None\<close> and for the empty string.\<close>

definition falsy :: "string option \<Rightarrow> bool" where
  "falsy x = (x = None \<or> x = Some [])"

text \<open>
  The loop of \<open>load_metrics\<close> over the runs of the experiment. \<^verbatim>\<open>params['run_name']\<close>
  raises \<^verbatim>\<open>KeyError\<close> for a run without that parameter.
\<close>

fun load_runs ::
  "string \<Rightarrow> run list \<Rightarrow> (string \<times> pyfloat) list list \<times> string option
     \<Rightarrow> error + (string \<times> pyfloat) list list \<times> string option" where
  "load_runs rn [] acc = Inr acc"
| "load_runs rn (r # rs) (ms, model_name) =
     (case map_of (params r) ''run_name'' of
        None \<Rightarrow> Inl (KeyError ''run_name'')
      | Some p \<Rightarrow>
          if rn = base_run_name p
          then load_runs rn rs
                 (ms @ [metrics r],
                  if falsy model_name
                  then Some (case map_of (params r) ''model.name'' of
                               None \<Rightarrow> ''Unknown'' | Some m \<Rightarrow> m)
                  else model_name)
          else load_runs rn rs (ms, model_name))"

text \<open>
  \<^verbatim>\<open>get_experiment_by_name\<close> returns \<^verbatim>\<open>None\<close> for an unknown experiment, and reading
  \<^verbatim>\<open>experiment_id\<close> from it raises \<^verbatim>\<open>AttributeError\<close>.
\<close>

definition load_metrics ::
  "leaderboard \<Rightarrow> world \<Rightarrow> string \<Rightarrow> error + (string \<times> pyfloat) list list \<times> string option" where
  "load_metrics self w d_type =
     (case tracking w d_type of
        None \<Rightarrow> Inl AttributeError
      | Some rs \<Rightarrow> load_runs (run_name self) rs ([], None))"

text \<open>
  \<^verbatim>\<open>aggregated_metrics.get(k, list()).append(v)\<close>: the list of a known key grows by \<open>v\<close>; for
  an unknown key the value goes to a fresh list that is dropped.
\<close>

definition get_append :: "'k \<Rightarrow> 'v \<Rightarrow> ('k \<times> 'v list) list \<Rightarrow> ('k \<times> 'v list) list" where
  "get_append k v d = (case map_of d k of None \<Rightarrow> d | Some vs \<Rightarrow> AList.update k (vs @ [v]) d)"

text \<open>\<^verbatim>\<open>metrics[0]\<close> raises \<^verbatim>\<open>IndexError\<close> on the empty list.\<close>

definition aggregate_metrics :: "('k \<times> 'v) list list \<Rightarrow> error + ('k \<times> 'v list) list" where
  "aggregate_metrics ms =
     (case py_index ms 0 of
        Inl err \<Rightarrow> Inl err
      | Inr m0 \<Rightarrow>
          Inr (fold (\<lambda>metric d. fold (\<lambda>(k, v) d. get_append k v d) metric d) ms
                 (dict_of (map (\<lambda>k. (k, [])) (map fst m0)))))"

text \<open>The two comprehensions of \<open>average_metrics\<close>, over the keys that contain \<^verbatim>\<open>test\<close>.\<close>

definition metrics_mean :: "(string \<times> pyfloat list) list \<Rightarrow> (string \<times> pyfloat) list" where
  "metrics_mean aggregated_metrics =
     dict_of (map (\<lambda>(k, v). (k @ ''_mean'', np_mean v))
                (filter (\<lambda>(k, v). py_in ''test'' k) aggregated_metrics))"

definition metrics_var :: "(string \<times> pyfloat list) list \<Rightarrow> (string \<times> pyfloat) list" where
  "metrics_var aggregated_metrics =
     dict_of (map (\<lambda>(k, v). (k @ ''_var'', np_var v))
                (filter (\<lambda>(k, v). py_in ''test'' k) aggregated_metrics))"

text \<open>
  \<^verbatim>\<open>mlflow.set_experiment\<close> followed by \<^verbatim>\<open>mlflow.start_run\<close>: a new run in the experiment, which
  is created when it does not exist. The run \<open>r\<close> is the new run with what has been logged
  to it.
\<close>

definition start_run :: "string \<Rightarrow> run \<Rightarrow> world \<Rightarrow> world" where
  "start_run d_type r w =
     w\<lparr>tracking := (tracking w)(d_type \<mapsto>
          r # (case tracking w d_type of None \<Rightarrow> [] | Some rs \<Rightarrow> rs))\<rparr>"

definition str_option :: "string option \<Rightarrow> string" where
  "str_option x = (case x of None \<Rightarrow> ''None'' | Some s \<Rightarrow> s)"

text \<open>
  \<^verbatim>\<open>mlflow.log_param\<close> and \<^verbatim>\<open>mlflow.log_metrics\<close> write to the run that was started; the other
  two calls do not change a run.
\<close>

fun apply_call :: "mlflow_call \<Rightarrow> run \<Rightarrow> run" where
  "apply_call (Log_param k v) r = r\<lparr>params := AList.update k v (params r)\<rparr>"
| "apply_call (Log_metrics kvs) r = r\<lparr>metrics := dict_update (metrics r) kvs\<rparr>"
| "apply_call (Set_experiment d_type) r = r"
| "apply_call (Start_run name) r = r"

text \<open>
  The calls inside the \<^verbatim>\<open>with\<close> block, lines 160 to 167, in their order. The first call
  that the tracking service answers with an exception ends the block, and what the calls
  before it have written stays: the script has no call that removes a run. Leaving the
  block only ends the run.
\<close>

definition summary_calls ::
  "leaderboard \<Rightarrow> env \<Rightarrow> (string \<times> pyfloat) list list \<Rightarrow> string option
     \<Rightarrow> (string \<times> pyfloat list) list \<Rightarrow> mlflow_call list" where
  "summary_calls self e ms model_name aggregated_metrics =
     [Log_param ''run_name'' (run_name self @ ''_av''),
      Log_param ''starting_time'' (now e),
      Log_param ''model.name'' (str_option model_name),
      Log_param ''num_of_runs_to_average'' (str_nat (length ms)),
      Log_metrics (metrics_mean aggregated_metrics),
      Log_metrics (metrics_var aggregated_metrics)]"

fun log_calls :: "(mlflow_call \<Rightarrow> bool) \<Rightarrow> mlflow_call list \<Rightarrow> run \<Rightarrow> error option \<times> run" where
  "log_calls refused [] r = (None, r)"
| "log_calls refused (c # cs) r =
     (if refused c then (Some MlflowException, r) else log_calls refused cs (apply_call c r))"

text \<open>The run once every call of the block has been answered.\<close>

definition summary_run ::
  "leaderboard \<Rightarrow> env \<Rightarrow> (string \<times> pyfloat) list list \<Rightarrow> string option
     \<Rightarrow> (string \<times> pyfloat list) list \<Rightarrow> run" where
  "summary_run self e ms model_name aggregated_metrics =
     fold apply_call (summary_calls self e ms model_name aggregated_metrics)
       \<lparr>tag_name = run_name self @ ''_av'', params = [], metrics = []\<rparr>"

text \<open>
  \<open>average_metrics\<close>. The exceptions of \<open>load_metrics\<close> and \<open>aggregate_metrics\<close> are raised
  before the first call that writes to the tracking service, and so is an exception of
  \<^verbatim>\<open>set_experiment\<close> or \<^verbatim>\<open>start_run\<close>. An exception of a later call leaves the run that was
  started in the experiment.
\<close>

definition average_metrics ::
  "leaderboard \<Rightarrow> env \<Rightarrow> string \<Rightarrow> world \<Rightarrow> (error + unit) \<times> world" where
  "average_metrics self e d_type w =
     (case load_metrics self w d_type of
        Inl err \<Rightarrow> (Inl err, w)
      | Inr (ms, model_name) \<Rightarrow>
          (case aggregate_metrics ms of
             Inl err \<Rightarrow> (Inl err, w)
           | Inr aggregated_metrics \<Rightarrow>
               if refuses w (Set_experiment d_type)
                  \<or> refuses w (Start_run (run_name self @ ''_av''))
               then (Inl MlflowException, w)
               else (case log_calls (refuses w)
                            (summary_calls self e ms model_name aggregated_metrics)
                            \<lparr>tag_name = run_name self @ ''_av'', params = [], metrics = []\<rparr> of
                       (None, r) \<Rightarrow> (Inr (), start_run d_type r w)
                     | (Some err, r) \<Rightarrow> (Inl err, start_run d_type r w))))"

section \<open>The pipeline of one dataset\<close>

text \<open>
  \<open>submit_bundle\<close>: submit, wait, average. \<^verbatim>\<open>setup_logger\<close> only attaches handlers to the
  logger and is not modelled. An exception of a submission leaves the function; an
  exception of \<open>average_metrics\<close> is caught and logged. \<open>None\<close> is a wait that never ends.
\<close>

definition submit_bundle ::
  "leaderboard \<Rightarrow> env \<Rightarrow> (nat \<Rightarrow> communicate) \<Rightarrow> (nat \<Rightarrow> string) \<Rightarrow> string \<Rightarrow> world
     \<Rightarrow> ((error + unit) \<times> world) option" where
  "submit_bundle self e bsub bjobs d_type w =
     (case submit_jobs self e bsub d_type (py_range (bundle_size self)) {}
             (logger_info (StartedSubmitting d_type) w) of
        (Inl err, w1) \<Rightarrow> Some (Inl err, w1)
      | (Inr started_jobs_id, w1) \<Rightarrow>
          (case wait_jobs d_type started_jobs_id bjobs 0
                  (logger_info (StartedJobs d_type started_jobs_id) w1) of
             None \<Rightarrow> None
           | Some w2 \<Rightarrow>
               (case average_metrics self e d_type (logger_info (AveragingMetrics d_type) w2) of
                  (Inl err, w3) \<Rightarrow> Some (Inr (), logger_info (LoggedException err) w3)
                | (Inr u, w3) \<Rightarrow> Some (Inr (), w3))))"

section \<open>Concrete inputs\<close>

text \<open>
  A configuration, an environment and a tracking service with three finished runs of the
  family \<^verbatim>\<open>exp1\<close> and one of the family \<^verbatim>\<open>exp1x\<close>, used to run the definitions. The
  tracking service answers every call.
\<close>

definition ex_self :: leaderboard where
  "ex_self = \<lparr>trainer_path = ''train.py'', dataset_type = ''tum'', run_name = ''exp1'',
     bundle_size = 2, leader_boards = [''kitti_4/6'', ''discoman_v10'', ''tum''],
     verbose = False\<rparr>"

definition ex_env :: env where
  "ex_env = \<lparr>DISCOMAN_V10_PATH = ''/d'', KITTI_PATH = ''/k'', TUM_PATH = ''/t'',
     TRACKING_URI = ''uri'', PROJECT_PATH = ''/p'', lsf_out = ''/home/u/lsf/%J'',
     now = ''2019-10-01T12:00:00''\<rparr>"

definition ex_runs :: "run list" where
  "ex_runs =
     [\<lparr>tag_name = ''exp1_b_0'', params = [(''run_name'', ''exp1_b_0'')],
       metrics = [(''test_a'', Num 1), (''test_b'', Num 10), (''train_loss'', Num 5)]\<rparr>,
      \<lparr>tag_name = ''exp1x_b_0'', params = [(''run_name'', ''exp1x_b_0'')],
       metrics = [(''test_a'', Num 100), (''test_b'', Num 100)]\<rparr>,
      \<lparr>tag_name = ''exp1_b_1'', params = [(''run_name'', ''exp1_b_1''), (''model.name'', ''net'')],
       metrics = [(''test_a'', Num 2), (''test_b'', Num 20), (''val_loss'', Num 7)]\<rparr>,
      \<lparr>tag_name = ''exp1_b_2'', params = [(''run_name'', ''exp1_b_2'')],
       metrics = [(''test_b'', Num 30), (''test_a'', Num 3)]\<rparr>]"

definition ex_world :: world where
  "ex_world = \<lparr>submitted = [], polls = 0, slept = 0, tracking = [''tum'' \<mapsto> ex_runs],
     refuses = (\<lambda>c. False), log = []\<rparr>"

text \<open>
  The three metric records of the aggregation example of the specification, as the runs
  of the family \<^verbatim>\<open>exp1\<close>.
\<close>

definition ex_three_runs :: "run list" where
  "ex_three_runs =
     [\<lparr>tag_name = ''exp1_b_0'', params = [(''run_name'', ''exp1_b_0'')],
       metrics = [(''test_a'', Num 1), (''test_b'', Num 10)]\<rparr>,
      \<lparr>tag_name = ''exp1_b_1'', params = [(''run_name'', ''exp1_b_1'')],
       metrics = [(''test_a'', Num 2), (''test_b'', Num 20)]\<rparr>,
      \<lparr>tag_name = ''exp1_b_2'', params = [(''run_name'', ''exp1_b_2'')],
       metrics = [(''test_a'', Num 3), (''test_b'', Num 30)]\<rparr>]"

definition ex_three_world :: world where
  "ex_three_world = \<lparr>submitted = [], polls = 0, slept = 0,
     tracking = [''tum'' \<mapsto> ex_three_runs], refuses = (\<lambda>c. False), log = []\<rparr>"

text \<open>
  Status queries: the first shows the jobs 101 and 102, the second only 102, every later
  one prints nothing. In \<open>ex_bjobs_stuck\<close> the job 101 never leaves the list.
\<close>

definition ex_bjobs :: "nat \<Rightarrow> string" where
  "ex_bjobs i =
     (if i = 0 then ''JOBID USER STAT'' @ [CHR 0x0A] @ ''101 u RUN'' @ [CHR 0x0A]
                      @ ''102 u PEND'' @ [CHR 0x0A]
      else if i = 1 then ''JOBID USER STAT'' @ [CHR 0x0A] @ ''102 u RUN'' @ [CHR 0x0A]
      else [])"

definition ex_bjobs_stuck :: "nat \<Rightarrow> string" where
  "ex_bjobs_stuck i = ''JOBID USER STAT'' @ [CHR 0x0A] @ ''101 u RUN'' @ [CHR 0x0A]"

text \<open>
  A scheduler that acknowledges the submission with bundle index \<open>b\<close> by the job
  identifier \<open>101 + b\<close>.
\<close>

definition ex_bsub :: "nat \<Rightarrow> communicate" where
  "ex_bsub b =
     Outs (''Job <'' @ str_nat (101 + b) @ ''> is submitted to default queue <normal>.''
           @ [CHR 0x0A])"



section \<open>Notions used in the statements\<close>

text \<open>The values a record holds under the key \<open>k\<close>: one or none, for a dict.\<close>

definition items_under :: "'k \<Rightarrow> ('k \<times> 'v) list \<Rightarrow> 'v list" where
  "items_under k metric = map snd (filter (\<lambda>(k', v). k' = k) metric)"

text \<open>The text \<open>p\<close> occurs in \<open>s\<close>; \<open>py_in\<close> decides it (lemma \<open>py_in_contains\<close>).\<close>

definition contains :: "string \<Rightarrow> string \<Rightarrow> bool" where
  "contains p s = (\<exists>a b. s = a @ p @ b)"

text \<open>
  A byte that \<^verbatim>\<open>str\<close> of a \<^verbatim>\<open>bytes\<close> object shows as itself, whichever quote it uses:
  printable, and neither a backslash nor a quote.
\<close>

definition plain_byte :: "char \<Rightarrow> bool" where
  "plain_byte c \<longleftrightarrow>
     32 \<le> (of_char c :: nat) \<and> (of_char c :: nat) < 127
     \<and> c \<noteq> CHR 0x5C \<and> c \<noteq> CHR 0x27 \<and> c \<noteq> CHR 0x22"

text \<open>
  The contract of section 6 of the specification, in its words: the job identifier is the
  second whitespace-delimited token of the standard output, itself delimited by a pair of
  marker characters that are stripped; any deviation is a parse failure (\<open>None\<close>).
\<close>

definition spec_whitespace :: "char \<Rightarrow> bool" where
  "spec_whitespace c \<longleftrightarrow> c \<in> {CHR '' '', CHR 0x09, CHR 0x0A, CHR 0x0B, CHR 0x0C, CHR 0x0D}"

fun spec_tokens :: "string \<Rightarrow> string list" where
  "spec_tokens [] = []"
| "spec_tokens (c # s) =
     (if spec_whitespace c then spec_tokens s
      else (case s of
              [] \<Rightarrow> [[c]]
            | d # _ \<Rightarrow> if spec_whitespace d then [c] # spec_tokens s
                       else (case spec_tokens s of [] \<Rightarrow> [[c]] | t # ts \<Rightarrow> (c # t) # ts)))"

definition spec_job_handle :: "string \<Rightarrow> string option" where
  "spec_job_handle outs =
     (case spec_tokens outs of
        t0 # t1 # _ \<Rightarrow>
          if 2 \<le> length t1 \<and> hd t1 = CHR ''<'' \<and> last t1 = CHR ''>''
          then Some (butlast (tl t1)) else None
      | _ \<Rightarrow> None)"

section \<open>Splitting and joining\<close>

lemma py_split_not_Nil: "py_split c s \<noteq> []"
  by (induction s) (auto split: list.splits)

lemma py_split_no_sep: "c \<notin> set s \<Longrightarrow> py_split c s = [s]"
  by (induction s) auto

lemma py_split_append_sep: "py_split c (s @ c # t) = py_split c s @ py_split c t"
proof (induction s)
  case Nil
  then show ?case by simp
next
  case (Cons x s)
  obtain u us where "py_split c s = u # us"
    using py_split_not_Nil [of c s] by (cases "py_split c s") auto
  with Cons show ?case by simp
qed

lemma py_join_snoc: "ts \<noteq> [] \<Longrightarrow> py_join c (ts @ [t]) = py_join c ts @ c # t"
  by (induction c ts rule: py_join.induct) auto

lemma py_join_split: "py_join c (py_split c s) = s"
proof (induction s)
  case Nil
  then show ?case by simp
next
  case (Cons x s)
  obtain u us where us: "py_split c s = u # us"
    using py_split_not_Nil [of c s] by (cases "py_split c s") auto
  show ?case
  proof (cases "x = c")
    case True
    with Cons us show ?thesis by simp
  next
    case False
    with Cons us show ?thesis by (cases us) auto
  qed
qed

lemma length_py_join_butlast:
  assumes "py_join c ts \<noteq> []"
  shows "length (py_join c (butlast ts)) < length (py_join c ts)"
proof (cases ts rule: rev_cases)
  case Nil
  with assms show ?thesis by simp
next
  case (snoc us t)
  show ?thesis
  proof (cases "us = []")
    case True
    with snoc assms show ?thesis by simp
  next
    case False
    with snoc show ?thesis by (simp add: py_join_snoc)
  qed
qed

lemma slice_to_m2_snoc2: "slice_to_m2 (ts @ [t, u]) = ts"
  by (simp add: slice_to_m2_def)

lemma base_run_name_suffix:
  assumes "CHR ''_'' \<notin> set t" and "CHR ''_'' \<notin> set u"
  shows "base_run_name (s @ CHR ''_'' # t @ CHR ''_'' # u) = s"
proof -
  have "py_split CHR ''_'' (s @ CHR ''_'' # t @ CHR ''_'' # u)
          = py_split CHR ''_'' s @ [t, u]"
    using assms
    by (simp add: py_split_append_sep py_split_no_sep)
  then show ?thesis
    by (simp add: base_run_name_def slice_to_m2_snoc2 py_join_split)
qed

lemma base_run_name_av:
  "base_run_name (rn @ ''_av'') = py_join CHR ''_'' (butlast (py_split CHR ''_'' rn))"
proof -
  have "py_split CHR ''_'' (rn @ ''_av'') = py_split CHR ''_'' rn @ [''av'']"
    using py_split_append_sep [of "CHR ''_''" rn "''av''"] by simp
  then show ?thesis
    by (simp add: base_run_name_def slice_to_m2_def butlast_conv_take)
qed

lemma base_run_name_av_shorter:
  assumes "rn \<noteq> []"
  shows "length (base_run_name (rn @ ''_av'')) < length rn"
  using length_py_join_butlast [of "CHR ''_''" "py_split CHR ''_'' rn"] assms
  by (simp add: base_run_name_av py_join_split)

section \<open>The run family\<close>

lemma load_runs_kept:
  assumes "\<forall>r \<in> set rs. map_of (params r) ''run_name'' \<noteq> None"
  shows "\<exists>mn. load_runs rn rs (ms, m) =
           Inr (ms @ map metrics (filter (\<lambda>r. map_option base_run_name
                  (map_of (params r) ''run_name'') = Some rn) rs), mn)"
  using assms
proof (induction rs arbitrary: ms m)
  case Nil
  then show ?case by simp
next
  case (Cons r rs)
  then obtain p where p: "map_of (params r) ''run_name'' = Some p" by auto
  from Cons.prems have rest: "\<forall>r \<in> set rs. map_of (params r) ''run_name'' \<noteq> None" by simp
  show ?case
  proof (cases "rn = base_run_name p")
    case True
    from Cons.IH [OF rest, of "ms @ [metrics r]"] True p show ?thesis
      by auto
  next
    case False
    from Cons.IH [OF rest, of ms m] False p show ?thesis by auto
  qed
qed

text \<open>
  C5. With an experiment whose runs all record the parameter \<^verbatim>\<open>run_name\<close>, \<open>load_metrics\<close>
  keeps the metrics of exactly the runs whose base name equals the configured run name, in
  the order of the runs. The base name is the parameter split at \<^verbatim>\<open>_\<close> without its last two
  pieces: a name that ends in two pieces free of \<^verbatim>\<open>_\<close> loses them and their separators;
  \<^verbatim>\<open>exp1_b_3\<close> gives \<^verbatim>\<open>exp1\<close> and \<^verbatim>\<open>my_run_b_0\<close> gives \<^verbatim>\<open>my_run\<close>.
\<close>

theorem load_metrics_exact_base:
  "(tracking w d_type = Some rs \<and> (\<forall>r \<in> set rs. map_of (params r) ''run_name'' \<noteq> None) \<longrightarrow>
      (\<exists>model_name. load_metrics self w d_type =
         Inr (map metrics (filter (\<lambda>r. map_option base_run_name
                (map_of (params r) ''run_name'') = Some (run_name self)) rs), model_name)))
   \<and> base_run_name p = py_join CHR ''_'' (slice_to_m2 (py_split CHR ''_'' p))
   \<and> (CHR ''_'' \<notin> set t \<and> CHR ''_'' \<notin> set u \<longrightarrow>
        base_run_name (s @ ''_'' @ t @ ''_'' @ u) = s)
   \<and> base_run_name ''exp1_b_3'' = ''exp1''
   \<and> base_run_name ''my_run_b_0'' = ''my_run''"
proof -
  have kept: "tracking w d_type = Some rs \<and>
      (\<forall>r \<in> set rs. map_of (params r) ''run_name'' \<noteq> None) \<longrightarrow>
      (\<exists>model_name. load_metrics self w d_type =
         Inr (map metrics (filter (\<lambda>r. map_option base_run_name
                (map_of (params r) ''run_name'') = Some (run_name self)) rs), model_name))"
    using load_runs_kept [of rs "run_name self" "[]" None]
    by (auto simp: load_metrics_def)
  have suffix: "CHR ''_'' \<notin> set t \<and> CHR ''_'' \<notin> set u \<longrightarrow>
      base_run_name (s @ ''_'' @ t @ ''_'' @ u) = s"
    using base_run_name_suffix [of t u s] by simp
  have ex1: "base_run_name ''exp1_b_3'' = ''exp1''"
    using base_run_name_suffix [of "''b''" "''3''" "''exp1''"] by simp
  have ex2: "base_run_name ''my_run_b_0'' = ''my_run''"
    using base_run_name_suffix [of "''b''" "''0''" "''my_run''"] by simp
  from kept suffix ex1 ex2 show ?thesis
    by (simp add: base_run_name_def)
qed

text \<open>
  The family \<^verbatim>\<open>exp1\<close> of the concrete tracking service: the run of \<^verbatim>\<open>exp1x\<close> is left out.
\<close>

theorem load_metrics_exact_base_witness:
  "tracking ex_world ''tum'' = Some ex_runs
   \<and> list_all (\<lambda>r. map_of (params r) ''run_name'' \<noteq> None) ex_runs
   \<and> (\<exists>model_name. load_metrics ex_self ex_world ''tum'' =
         Inr ([[(''test_a'', Num 1), (''test_b'', Num 10), (''train_loss'', Num 5)],
               [(''test_a'', Num 2), (''test_b'', Num 20), (''val_loss'', Num 7)],
               [(''test_b'', Num 30), (''test_a'', Num 3)]], model_name))
   \<and> CHR ''_'' \<notin> set ''b'' \<and> CHR ''_'' \<notin> set ''12''
   \<and> base_run_name ''a_run_b_12'' = ''a_run''"
proof -
  have h1: "tracking ex_world ''tum'' = Some ex_runs"
    by (simp add: ex_world_def)
  have h2: "\<forall>r \<in> set ex_runs. map_of (params r) ''run_name'' \<noteq> None"
    by (simp add: ex_runs_def)
  have h3: "CHR ''_'' \<notin> set ''b'' \<and> CHR ''_'' \<notin> set ''12''" by simp
  have b: "base_run_name ''exp1_b_0'' = ''exp1''" "base_run_name ''exp1_b_1'' = ''exp1''"
    "base_run_name ''exp1_b_2'' = ''exp1''" "base_run_name ''exp1x_b_0'' = ''exp1x''"
    by (simp_all add: base_run_name_def slice_to_m2_def)
  from load_metrics_exact_base [of ex_world "''tum''" ex_runs ex_self "[]" "''b''" "''12''" "''a_run''"]
    h1 h2 h3
  show ?thesis
    by (simp add: ex_runs_def ex_self_def b)
qed

section \<open>Publishing the summary\<close>

lemma summary_run_eq:
  "summary_run self e ms mn agg =
     \<lparr>tag_name = run_name self @ ''_av'',
      params = dict_of
        [(''run_name'', run_name self @ ''_av''),
         (''starting_time'', now e),
         (''model.name'', str_option mn),
         (''num_of_runs_to_average'', str_nat (length ms))],
      metrics = dict_update (dict_update [] (metrics_mean agg)) (metrics_var agg)\<rparr>"
  by (simp add: summary_run_def summary_calls_def dict_of_def)

lemma summary_run_param:
  "map_of (params (summary_run self e ms mn agg)) ''run_name'' = Some (run_name self @ ''_av'')"
  by (simp add: summary_run_eq dict_of_def)

lemma log_calls_None:
  "log_calls refused cs r = (None, r') \<Longrightarrow> r' = fold apply_call cs r"
  by (induction cs arbitrary: r) (auto split: if_splits)

lemma log_calls_answered:
  "\<forall>c \<in> set cs. \<not> refused c \<Longrightarrow> log_calls refused cs r = (None, fold apply_call cs r)"
  by (induction cs arbitrary: r) auto

lemma average_metrics_Inr:
  assumes "average_metrics self e d_type w = (Inr u, w')"
  shows "\<exists>rs ms mn agg. tracking w d_type = Some rs
           \<and> load_metrics self w d_type = Inr (ms, mn)
           \<and> aggregate_metrics ms = Inr agg
           \<and> w' = start_run d_type (summary_run self e ms mn agg) w
           \<and> tracking w' d_type = Some (summary_run self e ms mn agg # rs)"
proof -
  from assms obtain ms mn where l: "load_metrics self w d_type = Inr (ms, mn)"
    by (auto simp: average_metrics_def split: sum.splits)
  from assms l obtain agg where a: "aggregate_metrics ms = Inr agg"
    by (auto simp: average_metrics_def split: sum.splits)
  from l obtain rs where t: "tracking w d_type = Some rs"
    by (auto simp: load_metrics_def split: option.splits)
  let ?r0 = "\<lparr>tag_name = run_name self @ ''_av'', params = [], metrics = []\<rparr>"
  obtain res r where lc: "log_calls (refuses w) (summary_calls self e ms mn agg) ?r0 = (res, r)"
    by (cases "log_calls (refuses w) (summary_calls self e ms mn agg) ?r0")
  from assms l a lc have res: "res = None" and w': "w' = start_run d_type r w"
    by (auto simp: average_metrics_def split: if_splits option.splits)
  from lc res have "r = summary_run self e ms mn agg"
    unfolding summary_run_def by (intro log_calls_None) simp
  with w' have w'': "w' = start_run d_type (summary_run self e ms mn agg) w"
    by simp
  with t have "tracking w' d_type = Some (summary_run self e ms mn agg # rs)"
    by (simp add: start_run_def)
  with l a t w'' show ?thesis by blast
qed

lemma aggregate_metrics_not_Nil: "ms \<noteq> [] \<Longrightarrow> \<exists>agg. aggregate_metrics ms = Inr agg"
  by (cases ms) (simp_all add: aggregate_metrics_def py_index_def)

lemma ex_world_answers: "\<not> refuses ex_world c" "\<not> refuses ex_three_world c"
  by (simp_all add: ex_world_def ex_three_world_def)

lemma average_metrics_answered:
  assumes "load_metrics self w d_type = Inr (ms, mn)" and "aggregate_metrics ms = Inr agg"
    and "\<And>c. \<not> refuses w c"
  shows "average_metrics self e d_type w
           = (Inr (), start_run d_type (summary_run self e ms mn agg) w)"
proof -
  have "log_calls (refuses w) (summary_calls self e ms mn agg)
      \<lparr>tag_name = run_name self @ ''_av'', params = [], metrics = []\<rparr>
      = (None, summary_run self e ms mn agg)"
    unfolding summary_run_def by (rule log_calls_answered) (simp add: assms(3))
  with assms show ?thesis
    by (simp add: average_metrics_def)
qed

text \<open>
  C10. For a non-empty configured run name, the base name of \<^verbatim>\<open>run_name + '_av'\<close> is strictly
  shorter than the run name and so differs from it. The summary run records that name as
  its parameter \<^verbatim>\<open>run_name\<close>: after \<open>average_metrics\<close> has published it, \<open>load_metrics\<close>
  returns what it returned before, so a later aggregation does not take the summary in.
\<close>

theorem summary_outside_own_family:
  assumes "run_name self \<noteq> []"
  shows "length (base_run_name (run_name self @ ''_av'')) < length (run_name self)
     \<and> base_run_name (run_name self @ ''_av'') \<noteq> run_name self
     \<and> (average_metrics self e d_type w = (Inr (), w') \<longrightarrow>
          (\<exists>r rs. tracking w d_type = Some rs \<and> tracking w' d_type = Some (r # rs)
             \<and> map_of (params r) ''run_name'' = Some (run_name self @ ''_av'')
             \<and> load_metrics self w' d_type = load_metrics self w d_type))"
proof -
  have shorter: "length (base_run_name (run_name self @ ''_av'')) < length (run_name self)"
    using assms by (rule base_run_name_av_shorter)
  then have differs: "base_run_name (run_name self @ ''_av'') \<noteq> run_name self"
    by auto
  have later: "\<exists>r rs. tracking w d_type = Some rs \<and> tracking w' d_type = Some (r # rs)
             \<and> map_of (params r) ''run_name'' = Some (run_name self @ ''_av'')
             \<and> load_metrics self w' d_type = load_metrics self w d_type"
    if "average_metrics self e d_type w = (Inr (), w')"
  proof -
    from average_metrics_Inr [OF that] obtain rs ms mn agg where
      t: "tracking w d_type = Some rs" and
      t': "tracking w' d_type = Some (summary_run self e ms mn agg # rs)"
      by blast
    have "load_metrics self w' d_type = load_metrics self w d_type"
      using t t' differs by (simp add: load_metrics_def summary_run_param)
    with t t' show ?thesis
      using summary_run_param by blast
  qed
  from shorter differs later show ?thesis by blast
qed

theorem summary_outside_own_family_witness:
  "run_name ex_self \<noteq> []
   \<and> fst (average_metrics ex_self ex_env ''tum'' ex_world) = Inr ()
   \<and> length (base_run_name ''exp1_av'') < length ''exp1''
   \<and> load_metrics ex_self (snd (average_metrics ex_self ex_env ''tum'' ex_world)) ''tum''
       = load_metrics ex_self ex_world ''tum''"
proof -
  have h: "run_name ex_self \<noteq> []" by (simp add: ex_self_def)
  have b: "base_run_name ''exp1_b_0'' = ''exp1''" "base_run_name ''exp1_b_1'' = ''exp1''"
    "base_run_name ''exp1_b_2'' = ''exp1''" "base_run_name ''exp1x_b_0'' = ''exp1x''"
    by (simp_all add: base_run_name_def slice_to_m2_def)
  have l: "\<exists>ms mn. load_metrics ex_self ex_world ''tum'' = Inr (ms, mn) \<and> ms \<noteq> []"
    by (simp add: load_metrics_def ex_world_def ex_runs_def ex_self_def b)
  then obtain ms mn where lm: "load_metrics ex_self ex_world ''tum'' = Inr (ms, mn)"
    and "ms \<noteq> []"
    by (elim exE conjE)
  from aggregate_metrics_not_Nil [OF this(2)] obtain agg where "aggregate_metrics ms = Inr agg" ..
  from average_metrics_answered [OF lm this ex_world_answers(1), of ex_env]
  have ok: "fst (average_metrics ex_self ex_env ''tum'' ex_world) = Inr ()"
    by simp
  then have run: "average_metrics ex_self ex_env ''tum'' ex_world
      = (Inr (), snd (average_metrics ex_self ex_env ''tum'' ex_world))"
    by (metis prod.collapse)
  from summary_outside_own_family [OF h, of ex_env "''tum''" ex_world
      "snd (average_metrics ex_self ex_env ''tum'' ex_world)"] run h ok
  show ?thesis
    by (auto simp: ex_self_def)
qed

section \<open>Grouping the metrics\<close>


lemma dict_of_keys_empty:
  "map_of (fold (\<lambda>(k, v) d. AList.update k v d) (map (\<lambda>k. (k, [])) ks) d) k0
     = (if k0 \<in> set ks then Some [] else map_of d k0)"
  by (induction ks arbitrary: d) (auto simp: update_conv')

lemma map_of_get_append:
  "map_of (get_append k v d) k0
     = (if k0 = k then map_option (\<lambda>vs. vs @ [v]) (map_of d k) else map_of d k0)"
  by (auto simp: get_append_def update_conv' split: option.splits)

lemma map_of_fold_items:
  "map_of (fold (\<lambda>(k, v) d. get_append k v d) metric d) k0
     = map_option (\<lambda>vs. vs @ items_under k0 metric) (map_of d k0)"
proof (induction metric arbitrary: d)
  case Nil
  then show ?case by (simp add: items_under_def option.map_ident)
next
  case (Cons kv metric)
  obtain k v where kv: "kv = (k, v)" by (cases kv)
  have "map_of (fold (\<lambda>(k, v) d. get_append k v d) metric (get_append k v d)) k0
      = map_option (\<lambda>vs. vs @ items_under k0 metric) (map_of (get_append k v d) k0)"
    by (rule Cons.IH)
  then show ?case
    by (cases "map_of d k0") (auto simp: kv map_of_get_append items_under_def)
qed

lemma map_of_fold_records:
  "map_of (fold (\<lambda>metric d. fold (\<lambda>(k, v) d. get_append k v d) metric d) ms d) k0
     = map_option (\<lambda>vs. vs @ concat (map (items_under k0) ms)) (map_of d k0)"
proof (induction ms arbitrary: d)
  case Nil
  then show ?case by (simp add: option.map_ident)
next
  case (Cons m ms)
  show ?case
    by (cases "map_of d k0") (simp_all add: Cons.IH map_of_fold_items)
qed

lemma distinct_update_fold:
  "distinct (map fst d) \<Longrightarrow> distinct (map fst (fold (\<lambda>(k, v) d. AList.update k v d) kvs d))"
  by (induction kvs arbitrary: d) (auto simp: distinct_update)

lemma distinct_get_append: "distinct (map fst d) \<Longrightarrow> distinct (map fst (get_append k v d))"
  by (simp add: get_append_def distinct_update split: option.splits)

lemma distinct_fold_items:
  "distinct (map fst d) \<Longrightarrow> distinct (map fst (fold (\<lambda>(k, v) d. get_append k v d) metric d))"
  by (induction metric arbitrary: d) (auto simp: distinct_get_append)

lemma distinct_fold_records:
  "distinct (map fst d) \<Longrightarrow>
   distinct (map fst (fold (\<lambda>metric d. fold (\<lambda>(k, v) d. get_append k v d) metric d) ms d))"
  by (induction ms arbitrary: d) (auto simp: distinct_fold_items)

lemma aggregate_metrics_Cons:
  "\<exists>agg. aggregate_metrics (m # ms) = Inr agg \<and> distinct (map fst agg)
     \<and> (\<forall>k. map_of agg k =
          (if k \<in> fst ` set m then Some (concat (map (items_under k) (m # ms))) else None))"
proof -
  let ?init = "dict_of (map (\<lambda>k. (k, [])) (map fst m))"
  let ?agg = "fold (\<lambda>metric d. fold (\<lambda>(k, v) d. get_append k v d) metric d) (m # ms) ?init"
  have agg: "aggregate_metrics (m # ms) = Inr ?agg"
    by (simp add: aggregate_metrics_def py_index_def)
  have init: "map_of ?init k = (if k \<in> fst ` set m then Some [] else None)" for k
    unfolding dict_of_def dict_of_keys_empty by simp
  have "distinct (map fst ?init)"
    unfolding dict_of_def by (rule distinct_update_fold) simp
  then have d: "distinct (map fst ?agg)"
    by (rule distinct_fold_records)
  have "map_of ?agg k =
      (if k \<in> fst ` set m then Some (concat (map (items_under k) (m # ms))) else None)" for k
    unfolding map_of_fold_records init by simp
  with agg d show ?thesis by blast
qed

lemma items_under_dict:
  "distinct (map fst metric) \<Longrightarrow>
   items_under k metric = (case map_of metric k of None \<Rightarrow> [] | Some v \<Rightarrow> [v])"
proof (induction metric)
  case Nil
  then show ?case by (simp add: items_under_def)
next
  case (Cons kv metric)
  obtain k' v' where kv: "kv = (k', v')" by (cases kv)
  show ?case
  proof (cases "k' = k")
    case True
    with Cons.prems kv have "k \<notin> fst ` set metric" by auto
    then have "filter (\<lambda>(k', v). k' = k) metric = []"
      by (force simp: filter_empty_conv)
    with True kv show ?thesis by (simp add: items_under_def)
  next
    case False
    with Cons kv show ?thesis by (simp add: items_under_def)
  qed
qed

lemma concat_items_under_dicts:
  "\<forall>metric \<in> set ms. distinct (map fst metric) \<Longrightarrow>
   concat (map (items_under k) ms) = List.map_filter (\<lambda>metric. map_of metric k) ms"
  by (induction ms) (auto simp: items_under_dict split: option.splits)


text \<open>
  C3. For a list of records with first record \<open>m\<close>, \<open>aggregate_metrics\<close> returns a dict whose
  keys are exactly the keys of \<open>m\<close>; under each of them it holds the values that the
  records hold for that key, in the order of the records, and a key that only later
  records have is not in the result. For records that are dicts (no key twice) the values
  are the lookups of the key in the records that have it.
\<close>

theorem aggregate_metrics_first_record_keys:
  "\<exists>agg. aggregate_metrics (m # ms) = Inr agg
     \<and> fst ` set agg = fst ` set m
     \<and> distinct (map fst agg)
     \<and> (\<forall>k \<in> fst ` set m. map_of agg k = Some (concat (map (items_under k) (m # ms))))
     \<and> (\<forall>k. k \<notin> fst ` set m \<longrightarrow> map_of agg k = None)
     \<and> ((\<forall>metric \<in> set (m # ms). distinct (map fst metric)) \<longrightarrow>
          (\<forall>k \<in> fst ` set m.
             map_of agg k = Some (List.map_filter (\<lambda>metric. map_of metric k) (m # ms))))"
proof -
  from aggregate_metrics_Cons [of m ms] obtain agg where
    agg: "aggregate_metrics (m # ms) = Inr agg" and
    d: "distinct (map fst agg)" and
    look: "\<And>k. map_of agg k =
      (if k \<in> fst ` set m then Some (concat (map (items_under k) (m # ms))) else None)"
    by blast
  have "dom (map_of agg) = fst ` set m"
    by (auto simp: look dom_def)
  then have keys: "fst ` set agg = fst ` set m"
    by (simp add: dom_map_of_conv_image_fst)
  have dicts: "\<forall>k \<in> fst ` set m.
      map_of agg k = Some (List.map_filter (\<lambda>metric. map_of metric k) (m # ms))"
    if "\<forall>metric \<in> set (m # ms). distinct (map fst metric)"
    using concat_items_under_dicts [OF that] by (simp add: look)
  from agg keys d dicts show ?thesis
    by (intro exI [of _ agg]) (simp add: look)
qed

theorem aggregate_metrics_first_record_keys_witness:
  "\<exists>agg. aggregate_metrics
       [[(''test_a'', Num 1), (''train_loss'', Num 5)],
        [(''test_a'', Num 2), (''extra'', Num 9)],
        [(''test_a'', Num 3)]] = Inr agg
     \<and> fst ` set agg = {''test_a'', ''train_loss''}
     \<and> map_of agg ''test_a'' = Some [Num 1, Num 2, Num 3]
     \<and> map_of agg ''train_loss'' = Some [Num 5]
     \<and> map_of agg ''extra'' = None"
  using aggregate_metrics_first_record_keys
    [of "[(''test_a'', Num 1), (''train_loss'', Num 5)]"
        "[[(''test_a'', Num 2), (''extra'', Num 9)], [(''test_a'', Num 3)]]"]
proof (elim exE conjE)
  fix agg
  let ?m = "[(''test_a'', Num 1), (''train_loss'', Num 5)]"
  let ?ms = "[[(''test_a'', Num 2), (''extra'', Num 9)], [(''test_a'', Num 3)]]"
  assume agg: "aggregate_metrics (?m # ?ms) = Inr agg"
    and keys: "fst ` set agg = fst ` set ?m"
    and vals: "\<forall>k \<in> fst ` set ?m. map_of agg k = Some (concat (map (items_under k) (?m # ?ms)))"
    and none: "\<forall>k. k \<notin> fst ` set ?m \<longrightarrow> map_of agg k = None"
  from keys have k: "fst ` set agg = {''test_a'', ''train_loss''}" by simp
  from vals have a: "map_of agg ''test_a'' = Some [Num 1, Num 2, Num 3]"
    by (simp add: items_under_def)
  from vals have t: "map_of agg ''train_loss'' = Some [Num 5]"
    by (simp add: items_under_def)
  from none [rule_format, of "''extra''"] have x: "map_of agg ''extra'' = None" by simp
  from agg k a t x show ?thesis
    by (intro exI [of _ agg] conjI)
qed

section \<open>No matching run\<close>

lemma aggregate_metrics_values_not_Nil:
  assumes "aggregate_metrics ms = Inr agg" and "(k, v) \<in> set agg"
  shows "v \<noteq> []"
proof (cases ms)
  case Nil
  with assms show ?thesis by (simp add: aggregate_metrics_def py_index_def)
next
  case (Cons m ms')
  from aggregate_metrics_Cons [of m ms'] assms(1) Cons have
    d: "distinct (map fst agg)" and
    look: "map_of agg k =
      (if k \<in> fst ` set m then Some (concat (map (items_under k) (m # ms'))) else None)"
    by auto
  from d assms(2) have v: "map_of agg k = Some v" by simp
  with look have k: "k \<in> fst ` set m" and
    "v = concat (map (items_under k) (m # ms'))"
    by (auto split: if_splits)
  moreover from k have "items_under k m \<noteq> []"
    by (force simp: items_under_def filter_empty_conv)
  ultimately show ?thesis by simp
qed

lemma average_metrics_no_match:
  assumes "tracking w d_type = Some rs"
    and "\<forall>r \<in> set rs. map_of (params r) ''run_name'' \<noteq> None
           \<and> map_option base_run_name (map_of (params r) ''run_name'') \<noteq> Some (run_name self)"
  shows "average_metrics self e d_type w = (Inl IndexError, w)"
proof -
  from assms(2) have all: "\<forall>r \<in> set rs. map_of (params r) ''run_name'' \<noteq> None"
    by simp
  from assms(2) have none: "filter (\<lambda>r. map_option base_run_name
      (map_of (params r) ''run_name'') = Some (run_name self)) rs = []"
    by (simp add: filter_empty_conv)
  from load_runs_kept [OF all, of "run_name self" "[]" None] none
  obtain mn where "load_runs (run_name self) rs ([], None) = Inr ([], mn)"
    by auto
  with assms(1) have "load_metrics self w d_type = Inr ([], mn)"
    by (simp add: load_metrics_def)
  then show ?thesis
    by (simp add: average_metrics_def aggregate_metrics_def py_index_def)
qed

text \<open>
  C2. When the experiment exists, every run records the parameter \<^verbatim>\<open>run_name\<close> and no base
  name equals the configured run name, \<open>average_metrics\<close> raises the \<^verbatim>\<open>IndexError\<close> of
  \<^verbatim>\<open>metrics[0]\<close> (the failure the specification calls NoMatchingRuns) and leaves the world
  as it was: nothing is published. Whatever the runs are, no value sequence that
  \<open>aggregate_metrics\<close> returns is empty, so no statistic is taken of an empty sequence.
\<close>

theorem no_matching_runs_fails:
  assumes "tracking w d_type = Some rs"
    and "\<forall>r \<in> set rs. map_of (params r) ''run_name'' \<noteq> None
           \<and> map_option base_run_name (map_of (params r) ''run_name'') \<noteq> Some (run_name self)"
  shows "average_metrics self e d_type w = (Inl IndexError, w)
     \<and> tracking (snd (average_metrics self e d_type w)) = tracking w
     \<and> (\<forall>ms agg k v. aggregate_metrics ms = Inr agg \<and> (k, v) \<in> set agg \<longrightarrow>
           v \<noteq> [] \<and> (num_values v \<noteq> None \<longrightarrow> np_mean v \<noteq> NaN \<and> np_var v \<noteq> NaN))"
proof -
  from assms have fails: "average_metrics self e d_type w = (Inl IndexError, w)"
    by (rule average_metrics_no_match)
  have stats: "v \<noteq> [] \<and> (num_values v \<noteq> None \<longrightarrow> np_mean v \<noteq> NaN \<and> np_var v \<noteq> NaN)"
    if "aggregate_metrics ms = Inr agg" and "(k, v) \<in> set agg"
    for ms :: "('a \<times> pyfloat) list list" and agg k v
  proof -
    from aggregate_metrics_values_not_Nil [OF that] have v: "v \<noteq> []" .
    then have "num_values v \<noteq> Some []"
      by (cases v rule: num_values.cases) (auto split: option.splits)
    with v show ?thesis
      by (auto simp: np_mean_def np_var_def Let_def split: option.splits)
  qed
  from fails stats show ?thesis by auto
qed

theorem no_matching_runs_fails_witness:
  "tracking ex_world ''tum'' = Some ex_runs
   \<and> list_all (\<lambda>r. map_of (params r) ''run_name'' \<noteq> None
        \<and> map_option base_run_name (map_of (params r) ''run_name'') \<noteq> Some ''exp'') ex_runs
   \<and> average_metrics (ex_self\<lparr>run_name := ''exp''\<rparr>) ex_env ''tum'' ex_world
        = (Inl IndexError, ex_world)"
proof -
  have h1: "tracking ex_world ''tum'' = Some ex_runs"
    by (simp add: ex_world_def)
  have b: "base_run_name ''exp1_b_0'' = ''exp1''" "base_run_name ''exp1_b_1'' = ''exp1''"
    "base_run_name ''exp1_b_2'' = ''exp1''" "base_run_name ''exp1x_b_0'' = ''exp1x''"
    by (simp_all add: base_run_name_def slice_to_m2_def)
  have h2: "list_all (\<lambda>r. map_of (params r) ''run_name'' \<noteq> None
        \<and> map_option base_run_name (map_of (params r) ''run_name'') \<noteq> Some ''exp'') ex_runs"
    by (simp add: ex_runs_def b)
  then have h2': "\<forall>r \<in> set ex_runs. map_of (params r) ''run_name'' \<noteq> None
       \<and> map_option base_run_name (map_of (params r) ''run_name'')
            \<noteq> Some (run_name (ex_self\<lparr>run_name := ''exp''\<rparr>))"
    by (simp add: list_all_iff)
  have "average_metrics (ex_self\<lparr>run_name := ''exp''\<rparr>) ex_env ''tum'' ex_world
      = (Inl IndexError, ex_world)"
    using no_matching_runs_fails [OF h1 h2', of ex_env] by (rule conjunct1)
  with h1 h2 show ?thesis
    by (intro conjI)
qed

section \<open>The published statistics\<close>

lemma py_in_iff: "py_in p s \<longleftrightarrow> (\<exists>a b. s = a @ p @ b)"
proof (induction s)
  case Nil
  then show ?case by auto
next
  case (Cons x s)
  have "take (length p) (x # s) = p \<longleftrightarrow> (\<exists>b. x # s = p @ b)"
    by (metis append_eq_conv_conj append_take_drop_id)
  moreover have "(\<exists>a b. x # s = a @ p @ b) \<longleftrightarrow> (\<exists>b. x # s = p @ b) \<or> (\<exists>a b. s = a @ p @ b)"
  proof
    assume "\<exists>a b. x # s = a @ p @ b"
    then obtain a b where ab: "x # s = a @ p @ b" by blast
    show "(\<exists>b. x # s = p @ b) \<or> (\<exists>a b. s = a @ p @ b)"
    proof (cases a)
      case Nil
      with ab show ?thesis by auto
    next
      case (Cons y a')
      with ab have "s = a' @ p @ b" by simp
      then show ?thesis by blast
    qed
  next
    assume "(\<exists>b. x # s = p @ b) \<or> (\<exists>a b. s = a @ p @ b)"
    then show "\<exists>a b. x # s = a @ p @ b"
    proof
      assume "\<exists>b. x # s = p @ b"
      then obtain b where "x # s = [] @ p @ b" by auto
      then show ?thesis by blast
    next
      assume "\<exists>a b. s = a @ p @ b"
      then obtain a b where "x # s = (x # a) @ p @ b" by auto
      then show ?thesis by blast
    qed
  qed
  ultimately show ?case using Cons.IH by simp
qed

lemma map_of_fold_update:
  "distinct (map fst kvs) \<Longrightarrow>
   map_of (fold (\<lambda>(k, v) d. AList.update k v d) kvs d) k
     = (case map_of kvs k of None \<Rightarrow> map_of d k | Some v \<Rightarrow> Some v)"
proof (induction kvs arbitrary: d)
  case Nil
  then show ?case by simp
next
  case (Cons kv kvs)
  obtain k1 v1 where kv: "kv = (k1, v1)" by (cases kv)
  from Cons.prems kv have fresh: "map_of kvs k1 = None"
    by (simp add: map_of_eq_None_iff)
  from Cons.prems have "distinct (map fst kvs)" by simp
  from Cons.IH [OF this, of "AList.update k1 v1 d"] fresh show ?case
    by (auto simp: kv update_conv' split: option.splits)
qed

lemma map_of_dict_of:
  "distinct (map fst kvs) \<Longrightarrow> map_of (dict_of kvs) k = map_of kvs k"
  by (simp add: dict_of_def map_of_fold_update split: option.splits)

lemma distinct_dict_of: "distinct (map fst (dict_of kvs))"
  unfolding dict_of_def by (rule distinct_update_fold) simp

lemma map_of_stat_items:
  assumes "distinct (map fst agg)"
  shows "map_of (map (\<lambda>(k, v). (k @ sfx, f v)) (filter (\<lambda>(k, v). P k) agg)) (k @ sfx)
           = (if P k then map_option f (map_of agg k) else None)"
  using assms
proof (induction agg)
  case Nil
  then show ?case by simp
next
  case (Cons kv agg)
  obtain k1 v1 where kv: "kv = (k1, v1)" by (cases kv)
  from Cons.prems kv have "k1 \<notin> fst ` set agg" by simp
  then have fresh: "map_of agg k1 = None" by (simp add: map_of_eq_None_iff)
  from Cons show ?case
    by (auto simp: kv fresh)
qed

lemma stat_items_keys:
  "fst ` set (map (\<lambda>(k, v). (k @ sfx, f v)) (filter (\<lambda>(k, v). P k) agg))
     = (\<lambda>k. k @ sfx) ` {k \<in> fst ` set agg. P k}"
  by (induction agg) auto

lemma distinct_stat_items:
  "distinct (map fst agg) \<Longrightarrow>
   distinct (map fst (map (\<lambda>(k, v). (k @ sfx, f v)) (filter (\<lambda>(k, v). P k) agg)))"
  by (induction agg) (auto simp: image_iff)

lemma keys_fold_update:
  "fst ` set (fold (\<lambda>(k, v) d. AList.update k v d) kvs d) = fst ` set d \<union> fst ` set kvs"
proof (induction kvs arbitrary: d)
  case Nil
  then show ?case by simp
next
  case (Cons kv kvs)
  obtain k v where kv: "kv = (k, v)" by (cases kv)
  have "fst ` set (AList.update k v d) = insert k (fst ` set d)"
    using dom_update [of k v d] by simp
  with Cons.IH [of "AList.update k v d"] show ?case
    by (simp add: kv)
qed

lemma keys_dict_of: "fst ` set (dict_of kvs) = fst ` set kvs"
  by (simp add: dict_of_def keys_fold_update)

lemma mean_not_var: "k @ ''_mean'' \<noteq> k' @ ''_var''"
proof
  assume "k @ ''_mean'' = k' @ ''_var''"
  then have "last (k @ ''_mean'') = last (k' @ ''_var'')" by simp
  then show False by simp
qed

lemma map_of_metrics_mean:
  "distinct (map fst agg) \<Longrightarrow>
   map_of (metrics_mean agg) (k @ ''_mean'')
     = (if py_in ''test'' k then map_option np_mean (map_of agg k) else None)"
  unfolding metrics_mean_def
  by (simp only: map_of_dict_of [OF distinct_stat_items] map_of_stat_items)

lemma map_of_metrics_var:
  "distinct (map fst agg) \<Longrightarrow>
   map_of (metrics_var agg) (k @ ''_var'')
     = (if py_in ''test'' k then map_option np_var (map_of agg k) else None)"
  unfolding metrics_var_def
  by (simp only: map_of_dict_of [OF distinct_stat_items] map_of_stat_items)

lemma map_of_summary_metrics:
  "map_of (metrics (summary_run self e ms mn agg)) x
     = (case map_of (metrics_var agg) x of
          None \<Rightarrow> map_of (metrics_mean agg) x
        | Some v \<Rightarrow> Some v)"
proof -
  have m: "distinct (map fst (metrics_mean agg))" and v: "distinct (map fst (metrics_var agg))"
    by (simp_all add: metrics_mean_def metrics_var_def distinct_dict_of)
  show ?thesis
    by (simp add: summary_run_eq dict_update_def map_of_fold_update [OF m]
        map_of_fold_update [OF v] split: option.splits)
qed


lemma keys_summary_metrics:
  "fst ` set (metrics (summary_run self e ms mn agg))
     = (\<lambda>k. k @ ''_mean'') ` {k \<in> fst ` set agg. py_in ''test'' k}
       \<union> (\<lambda>k. k @ ''_var'') ` {k \<in> fst ` set agg. py_in ''test'' k}"
  by (simp add: summary_run_eq dict_update_def keys_fold_update metrics_mean_def
      metrics_var_def keys_dict_of stat_items_keys del: set_map)

lemma summary_metrics_mean:
  assumes "distinct (map fst agg)"
  shows "map_of (metrics (summary_run self e ms mn agg)) (k @ ''_mean'')
           = (if py_in ''test'' k then map_option np_mean (map_of agg k) else None)"
proof -
  have "map_of (metrics_var agg) (k @ ''_mean'') = None"
    by (auto simp: map_of_eq_None_iff metrics_var_def keys_dict_of stat_items_keys
        mean_not_var simp del: set_map)
  then show ?thesis
    by (simp add: map_of_summary_metrics map_of_metrics_mean [OF assms])
qed

lemma summary_metrics_var:
  assumes "distinct (map fst agg)"
  shows "map_of (metrics (summary_run self e ms mn agg)) (k @ ''_var'')
           = (if py_in ''test'' k then map_option np_var (map_of agg k) else None)"
proof (cases "map_of (metrics_var agg) (k @ ''_var'')")
  case None
  have "map_of (metrics_mean agg) (k @ ''_var'') = None"
    by (auto simp: map_of_eq_None_iff metrics_mean_def keys_dict_of stat_items_keys
        mean_not_var [symmetric] simp del: set_map)
  with None show ?thesis
    by (simp add: map_of_summary_metrics map_of_metrics_var [OF assms, symmetric])
next
  case (Some v)
  then show ?thesis
    by (simp add: map_of_summary_metrics map_of_metrics_var [OF assms, symmetric])
qed

lemma ex_three_load:
  "load_metrics ex_self ex_three_world ''tum'' =
     Inr ([[(''test_a'', Num 1), (''test_b'', Num 10)],
           [(''test_a'', Num 2), (''test_b'', Num 20)],
           [(''test_a'', Num 3), (''test_b'', Num 30)]], Some ''Unknown'')"
proof -
  have b: "base_run_name ''exp1_b_0'' = ''exp1''" "base_run_name ''exp1_b_1'' = ''exp1''"
    "base_run_name ''exp1_b_2'' = ''exp1''"
    by (simp_all add: base_run_name_def slice_to_m2_def)
  show ?thesis
    by (simp add: load_metrics_def ex_three_world_def ex_three_runs_def ex_self_def b falsy_def)
qed

lemma ex_three_aggregate:
  "aggregate_metrics
     [[(''test_a'', Num 1), (''test_b'', Num 10)],
      [(''test_a'', Num 2), (''test_b'', Num 20)],
      [(''test_a'', Num 3), (''test_b'', Num 30)]]
   = Inr [(''test_a'', [Num 1, Num 2, Num 3]), (''test_b'', [Num 10, Num 20, Num 30])]"
  by (simp add: aggregate_metrics_def py_index_def dict_of_def get_append_def)

lemma ex_three_metrics:
  "metrics (summary_run self e ms mn
      [(''test_a'', [Num 1, Num 2, Num 3]), (''test_b'', [Num 10, Num 20, Num 30])])
   = [(''test_a_mean'', Num 2), (''test_b_mean'', Num 20),
      (''test_a_var'', Num (2 / 3)), (''test_b_var'', Num (200 / 3))]"
proof -
  have t: "py_in ''test'' ''test_a''" "py_in ''test'' ''test_b''" by simp_all
  have m: "metrics_mean [(''test_a'', [Num 1, Num 2, Num 3]), (''test_b'', [Num 10, Num 20, Num 30])]
      = [(''test_a_mean'', Num 2), (''test_b_mean'', Num 20)]"
    by (simp add: metrics_mean_def t dict_of_def np_mean_def del: py_in.simps)
  have v: "metrics_var [(''test_a'', [Num 1, Num 2, Num 3]), (''test_b'', [Num 10, Num 20, Num 30])]
      = [(''test_a_var'', Num (2 / 3)), (''test_b_var'', Num (200 / 3))]"
    by (simp add: metrics_var_def t dict_of_def np_var_def del: py_in.simps)
  show ?thesis
    by (simp add: summary_run_eq m v dict_update_def)
qed

lemma py_in_contains: "py_in p s = contains p s"
  by (simp only: py_in_iff contains_def)

lemma average_metrics_published:
  assumes run: "average_metrics self e d_type w = (Inr (), w')"
  shows "\<exists>r rs m ms mn.
         tracking w' d_type = Some (r # rs)
         \<and> load_metrics self w d_type = Inr (m # ms, mn)
         \<and> fst ` set (metrics r)
             = (\<lambda>k. k @ ''_mean'') ` {k \<in> fst ` set m. contains ''test'' k}
               \<union> (\<lambda>k. k @ ''_var'') ` {k \<in> fst ` set m. contains ''test'' k}
         \<and> (\<forall>k \<in> fst ` set m. contains ''test'' k \<longrightarrow>
               map_of (metrics r) (k @ ''_mean'')
                 = Some (np_mean (concat (map (items_under k) (m # ms))))
               \<and> map_of (metrics r) (k @ ''_var'')
                 = Some (np_var (concat (map (items_under k) (m # ms)))))
         \<and> (\<forall>k. \<not> contains ''test'' k \<longrightarrow>
               map_of (metrics r) (k @ ''_mean'') = None
               \<and> map_of (metrics r) (k @ ''_var'') = None)"
proof -
  from average_metrics_Inr [OF run] obtain rs ms0 mn agg where
    l: "load_metrics self w d_type = Inr (ms0, mn)" and
    a: "aggregate_metrics ms0 = Inr agg" and
    t': "tracking w' d_type = Some (summary_run self e ms0 mn agg # rs)"
    by blast
  from a obtain m ms where ms0: "ms0 = m # ms"
    by (cases ms0) (simp_all add: aggregate_metrics_def py_index_def)
  from aggregate_metrics_Cons [of m ms] a ms0 have
    d: "distinct (map fst agg)" and
    look: "\<And>k. map_of agg k =
      (if k \<in> fst ` set m then Some (concat (map (items_under k) (m # ms))) else None)"
    by auto
  have "dom (map_of agg) = fst ` set m"
    by (auto simp: look dom_def)
  then have keys: "fst ` set agg = fst ` set m"
    by (simp add: dom_map_of_conv_image_fst)
  let ?r = "summary_run self e ms0 mn agg"
  have k: "fst ` set (metrics ?r)
      = (\<lambda>k. k @ ''_mean'') ` {k \<in> fst ` set m. contains ''test'' k}
        \<union> (\<lambda>k. k @ ''_var'') ` {k \<in> fst ` set m. contains ''test'' k}"
    by (simp only: keys_summary_metrics keys py_in_contains)
  have v: "\<forall>k \<in> fst ` set m. contains ''test'' k \<longrightarrow>
             map_of (metrics ?r) (k @ ''_mean'')
               = Some (np_mean (concat (map (items_under k) (m # ms))))
             \<and> map_of (metrics ?r) (k @ ''_var'')
               = Some (np_var (concat (map (items_under k) (m # ms))))"
    by (simp only: summary_metrics_mean [OF d] summary_metrics_var [OF d] look py_in_contains)
      simp
  have n: "\<forall>k. \<not> contains ''test'' k \<longrightarrow>
             map_of (metrics ?r) (k @ ''_mean'') = None
             \<and> map_of (metrics ?r) (k @ ''_var'') = None"
    by (simp only: summary_metrics_mean [OF d] summary_metrics_var [OF d] py_in_contains)
      simp
  from t' l [unfolded ms0] k v n show ?thesis
    by (intro exI [of _ ?r] exI [of _ rs] exI [of _ m] exI [of _ ms] exI [of _ mn] conjI)
qed

text \<open>
  C4. When \<open>average_metrics\<close> publishes, the metrics of the new run are a \<^verbatim>\<open>_mean\<close> and a
  \<^verbatim>\<open>_var\<close> entry for exactly the keys of the first kept record that contain \<^verbatim>\<open>test\<close>, holding
  the mean and the variance of the values gathered under the key; a key without \<^verbatim>\<open>test\<close>
  has neither entry. For the three records of the example the run holds
  \<^verbatim>\<open>test_a_mean = 2\<close>, \<^verbatim>\<open>test_b_mean = 20\<close>, \<^verbatim>\<open>test_a_var = 2/3\<close> and \<^verbatim>\<open>test_b_var = 200/3\<close>,
  and nothing else.
\<close>

theorem summary_only_test_keys:
  "(average_metrics self e d_type w = (Inr (), w') \<longrightarrow>
      (\<exists>r rs m ms mn.
         tracking w' d_type = Some (r # rs)
         \<and> load_metrics self w d_type = Inr (m # ms, mn)
         \<and> fst ` set (metrics r)
             = (\<lambda>k. k @ ''_mean'') ` {k \<in> fst ` set m. contains ''test'' k}
               \<union> (\<lambda>k. k @ ''_var'') ` {k \<in> fst ` set m. contains ''test'' k}
         \<and> (\<forall>k \<in> fst ` set m. contains ''test'' k \<longrightarrow>
               map_of (metrics r) (k @ ''_mean'')
                 = Some (np_mean (concat (map (items_under k) (m # ms))))
               \<and> map_of (metrics r) (k @ ''_var'')
                 = Some (np_var (concat (map (items_under k) (m # ms)))))
         \<and> (\<forall>k. \<not> contains ''test'' k \<longrightarrow>
               map_of (metrics r) (k @ ''_mean'') = None
               \<and> map_of (metrics r) (k @ ''_var'') = None)))
   \<and> (\<exists>r. average_metrics ex_self ex_env ''tum'' ex_three_world
              = (Inr (), start_run ''tum'' r ex_three_world)
         \<and> metrics r = [(''test_a_mean'', Num 2), (''test_b_mean'', Num 20),
                         (''test_a_var'', Num (2 / 3)), (''test_b_var'', Num (200 / 3))]
         \<and> \<bar>2 / 3 - 0.667 :: real\<bar> < 0.001 \<and> \<bar>200 / 3 - 66.67 :: real\<bar> < 0.01)"
proof (rule conjI)
  show "average_metrics self e d_type w = (Inr (), w') \<longrightarrow>
      (\<exists>r rs m ms mn.
         tracking w' d_type = Some (r # rs)
         \<and> load_metrics self w d_type = Inr (m # ms, mn)
         \<and> fst ` set (metrics r)
             = (\<lambda>k. k @ ''_mean'') ` {k \<in> fst ` set m. contains ''test'' k}
               \<union> (\<lambda>k. k @ ''_var'') ` {k \<in> fst ` set m. contains ''test'' k}
         \<and> (\<forall>k \<in> fst ` set m. contains ''test'' k \<longrightarrow>
               map_of (metrics r) (k @ ''_mean'')
                 = Some (np_mean (concat (map (items_under k) (m # ms))))
               \<and> map_of (metrics r) (k @ ''_var'')
                 = Some (np_var (concat (map (items_under k) (m # ms)))))
         \<and> (\<forall>k. \<not> contains ''test'' k \<longrightarrow>
               map_of (metrics r) (k @ ''_mean'') = None
               \<and> map_of (metrics r) (k @ ''_var'') = None))"
    by (rule impI) (rule average_metrics_published)
next
  let ?ms = "[[(''test_a'', Num 1), (''test_b'', Num 10)],
           [(''test_a'', Num 2), (''test_b'', Num 20)],
           [(''test_a'', Num 3), (''test_b'', Num 30)]]"
  let ?r = "summary_run ex_self ex_env ?ms (Some ''Unknown'')
      [(''test_a'', [Num 1, Num 2, Num 3]), (''test_b'', [Num 10, Num 20, Num 30])]"
  have run: "average_metrics ex_self ex_env ''tum'' ex_three_world
      = (Inr (), start_run ''tum'' ?r ex_three_world)"
    by (rule average_metrics_answered [OF ex_three_load ex_three_aggregate ex_world_answers(2)])
  have m: "metrics ?r = [(''test_a_mean'', Num 2), (''test_b_mean'', Num 20),
      (''test_a_var'', Num (2 / 3)), (''test_b_var'', Num (200 / 3))]"
    by (rule ex_three_metrics)
  have c1: "\<bar>2 / 3 - 0.667 :: real\<bar> < 0.001" by simp
  have c2: "\<bar>200 / 3 - 66.67 :: real\<bar> < 0.01" by simp
  from run m c1 c2
  show "\<exists>r. average_metrics ex_self ex_env ''tum'' ex_three_world
              = (Inr (), start_run ''tum'' r ex_three_world)
         \<and> metrics r = [(''test_a_mean'', Num 2), (''test_b_mean'', Num 20),
                         (''test_a_var'', Num (2 / 3)), (''test_b_var'', Num (200 / 3))]
         \<and> \<bar>2 / 3 - 0.667 :: real\<bar> < 0.001 \<and> \<bar>200 / 3 - 66.67 :: real\<bar> < 0.01"
    by (intro exI [of _ ?r] conjI)
qed

lemma ex_load:
  "load_metrics ex_self ex_world ''tum'' =
     Inr ([(''test_a'', Num 1), (''test_b'', Num 10), (''train_loss'', Num 5)] #
          [[(''test_a'', Num 2), (''test_b'', Num 20), (''val_loss'', Num 7)],
           [(''test_b'', Num 30), (''test_a'', Num 3)]], Some ''Unknown'')"
proof -
  have b: "base_run_name ''exp1_b_0'' = ''exp1''" "base_run_name ''exp1_b_1'' = ''exp1''"
    "base_run_name ''exp1_b_2'' = ''exp1''" "base_run_name ''exp1x_b_0'' = ''exp1x''"
    by (simp_all add: base_run_name_def slice_to_m2_def)
  show ?thesis
    by (simp add: load_metrics_def ex_world_def ex_runs_def ex_self_def b falsy_def)
qed

lemma ex_average_ok: "fst (average_metrics ex_self ex_env ''tum'' ex_world) = Inr ()"
proof -
  obtain agg where "aggregate_metrics
      ([(''test_a'', Num 1), (''test_b'', Num 10), (''train_loss'', Num 5)] #
       [[(''test_a'', Num 2), (''test_b'', Num 20), (''val_loss'', Num 7)],
        [(''test_b'', Num 30), (''test_a'', Num 3)]]) = Inr agg"
    using aggregate_metrics_not_Nil by blast
  from average_metrics_answered [OF ex_load this ex_world_answers(1), of ex_env]
  show ?thesis by simp
qed

text \<open>
  The concrete tracking service: \<^verbatim>\<open>train_loss\<close> is a key of the first record and has no
  entry in the published run, \<^verbatim>\<open>test_a\<close> has its mean.
\<close>

theorem summary_only_test_keys_witness:
  "fst (average_metrics ex_self ex_env ''tum'' ex_world) = Inr ()
   \<and> (\<exists>r rs. tracking (snd (average_metrics ex_self ex_env ''tum'' ex_world)) ''tum''
                 = Some (r # rs)
         \<and> map_of (metrics r) ''train_loss_mean'' = None
         \<and> map_of (metrics r) ''train_loss_var'' = None
         \<and> map_of (metrics r) ''test_a_mean'' = Some (Num 2))"
proof -
  let ?w' = "snd (average_metrics ex_self ex_env ''tum'' ex_world)"
  let ?m = "[(''test_a'', Num 1), (''test_b'', Num 10), (''train_loss'', Num 5)]"
  let ?ms = "[[(''test_a'', Num 2), (''test_b'', Num 20), (''val_loss'', Num 7)],
           [(''test_b'', Num 30), (''test_a'', Num 3)]]"
  have run: "average_metrics ex_self ex_env ''tum'' ex_world = (Inr (), ?w')"
    using ex_average_ok by (metis prod.collapse)
  have no: "\<not> contains ''test'' ''train_loss''"
    unfolding py_in_contains [symmetric] by simp
  have yes: "contains ''test'' ''test_a''"
    unfolding py_in_contains [symmetric] by simp
  from summary_only_test_keys [of ex_self ex_env "''tum''" ex_world ?w', THEN conjunct1,
      rule_format, OF run]
  obtain r rs m ms mn where
    t: "tracking ?w' ''tum'' = Some (r # rs)" and
    l: "load_metrics ex_self ex_world ''tum'' = Inr (m # ms, mn)" and
    v: "\<forall>k \<in> fst ` set m. contains ''test'' k \<longrightarrow>
               map_of (metrics r) (k @ ''_mean'')
                 = Some (np_mean (concat (map (items_under k) (m # ms))))
               \<and> map_of (metrics r) (k @ ''_var'')
                 = Some (np_var (concat (map (items_under k) (m # ms))))" and
    n: "\<forall>k. \<not> contains ''test'' k \<longrightarrow>
               map_of (metrics r) (k @ ''_mean'') = None
               \<and> map_of (metrics r) (k @ ''_var'') = None"
    by (elim exE conjE)
  from l have m: "m = ?m" and ms: "ms = ?ms"
    by (simp_all add: ex_load)
  from n [rule_format, OF no] have n1: "map_of (metrics r) ''train_loss_mean'' = None"
    and n2: "map_of (metrics r) ''train_loss_var'' = None"
    by simp_all
  have "''test_a'' \<in> fst ` set m" by (simp add: m)
  from v [rule_format, OF this yes]
  have "map_of (metrics r) (''test_a'' @ ''_mean'')
      = Some (np_mean (concat (map (items_under ''test_a'') (?m # ?ms))))"
    by (simp only: m ms)
  then have a: "map_of (metrics r) ''test_a_mean'' = Some (Num 2)"
    by (simp add: items_under_def np_mean_def)
  from ex_average_ok t n1 n2 a show ?thesis
    by (intro conjI exI [of _ r] exI [of _ rs])
qed

section \<open>The polling loop\<close>

lemma wait_jobs_Some:
  assumes "wait_jobs d_type A bjobs i w = Some w'"
  shows "\<exists>n\<ge>i. A \<inter> job_ids (bjobs n) = {}
           \<and> (\<forall>j. i \<le> j \<and> j < n \<longrightarrow> A \<inter> job_ids (bjobs j) \<noteq> {})
           \<and> polls w' = polls w + (n - i) + 1
           \<and> slept w' = slept w + 10 * (n - i)
           \<and> submitted w' = submitted w \<and> tracking w' = tracking w"
  using assms
proof (induction d_type A bjobs i w w' rule: wait_jobs.raw_induct [rotated 1, consumes 1, case_names step])
  case (step wait d_type A bjobs i w w')
  show ?case
  proof (cases "A \<inter> job_ids (bjobs i) = {}")
    case True
    with step(2) have "w' = logger_info (AllFinished d_type)
        (logger_info (StillRunning d_type {}) (w\<lparr>polls := polls w + 1\<rparr>))"
      by (simp add: Let_def)
    then have "polls w' = polls w + (i - i) + 1" "slept w' = slept w + 10 * (i - i)"
        "submitted w' = submitted w" "tracking w' = tracking w"
      by (simp_all add: logger_info_def)
    moreover have "\<forall>j. i \<le> j \<and> j < i \<longrightarrow> A \<inter> job_ids (bjobs j) \<noteq> {}"
      by auto
    moreover have "i \<le> i" by simp
    moreover note True
    ultimately show ?thesis by (intro exI [of _ i] conjI)
  next
    case False
    define w2 where "w2 = (logger_info (StillRunning d_type (A \<inter> job_ids (bjobs i)))
        (w\<lparr>polls := polls w + 1\<rparr>))\<lparr>slept := slept w + 10\<rparr>"
    have w2: "polls w2 = polls w + 1" "slept w2 = slept w + 10"
      "submitted w2 = submitted w" "tracking w2 = tracking w"
      by (simp_all add: w2_def logger_info_def)
    from step(2) False have "wait d_type A bjobs (Suc i) w2 = Some w'"
      by (simp add: Let_def w2_def logger_info_def)
    from step(1) [OF this] obtain n where n1: "Suc i \<le> n" and n2: "A \<inter> job_ids (bjobs n) = {}"
      and n3: "\<forall>j. Suc i \<le> j \<and> j < n \<longrightarrow> A \<inter> job_ids (bjobs j) \<noteq> {}"
      and n4: "polls w' = polls w2 + (n - Suc i) + 1"
      and n5: "slept w' = slept w2 + 10 * (n - Suc i)"
      and n6: "submitted w' = submitted w2"
      and n7: "tracking w' = tracking w2"
      by (elim exE conjE)
    have a: "\<forall>j. i \<le> j \<and> j < n \<longrightarrow> A \<inter> job_ids (bjobs j) \<noteq> {}"
    proof (intro allI impI)
      fix j assume "i \<le> j \<and> j < n"
      then have "j = i \<or> (Suc i \<le> j \<and> j < n)" by auto
      then show "A \<inter> job_ids (bjobs j) \<noteq> {}"
      proof
        assume "j = i" with False show ?thesis by simp
      next
        assume "Suc i \<le> j \<and> j < n" with n3 show ?thesis by simp
      qed
    qed
    from n1 n4 w2 have b: "polls w' = polls w + (n - i) + 1" by simp
    from n1 n5 w2 have c: "slept w' = slept w + 10 * (n - i)" by simp
    from n6 w2 have d: "submitted w' = submitted w" by simp
    from n7 w2 have e: "tracking w' = tracking w" by simp
    from n1 have f: "i \<le> n" by simp
    from f n2 a b c d e show ?thesis by (intro exI [of _ n] conjI)
  qed
qed

lemma wait_jobs_returns:
  assumes "A \<inter> job_ids (bjobs n) = {}" and "i \<le> n"
  shows "\<exists>w'. wait_jobs d_type A bjobs i w = Some w'"
  using assms
proof (induction "n - i" arbitrary: i w)
  case 0
  then have "i = n" by simp
  with 0 show ?case
    by (subst wait_jobs.simps) (simp add: Let_def)
next
  case (Suc k)
  then have k: "k = n - Suc i" and le: "Suc i \<le> n" by simp_all
  show ?case
  proof (cases "A \<inter> job_ids (bjobs i) = {}")
    case True
    then show ?thesis
      by (subst wait_jobs.simps) (simp add: Let_def)
  next
    case False
    from Suc.hyps(1) [OF k Suc.prems(1) le] False show ?thesis
      by (subst wait_jobs.simps) (simp add: Let_def)
  qed
qed

text \<open>
  C1. The wait returns if and only if some status query shows none of the started jobs.
  When it returns, it has made one query more than it has slept: it slept ten seconds
  after every query that showed a started job, and the query it stopped at, the first
  without one, is the last it made. When every query shows a started job it never returns.
\<close>

theorem wait_jobs_returns_iff:
  "((\<exists>w'. wait_jobs d_type A bjobs 0 w = Some w') \<longleftrightarrow> (\<exists>i. A \<inter> job_ids (bjobs i) = {}))
   \<and> (\<forall>w'. wait_jobs d_type A bjobs 0 w = Some w' \<longrightarrow>
         (\<exists>n. A \<inter> job_ids (bjobs n) = {}
            \<and> (\<forall>j<n. A \<inter> job_ids (bjobs j) \<noteq> {})
            \<and> polls w' = polls w + n + 1
            \<and> slept w' = slept w + 10 * n))
   \<and> ((\<forall>i. A \<inter> job_ids (bjobs i) \<noteq> {}) \<longrightarrow> wait_jobs d_type A bjobs 0 w = None)"
proof (intro conjI allI impI iffI)
  assume "\<exists>w'. wait_jobs d_type A bjobs 0 w = Some w'"
  then obtain w' where "wait_jobs d_type A bjobs 0 w = Some w'" ..
  from wait_jobs_Some [OF this] obtain n where "A \<inter> job_ids (bjobs n) = {}"
    by (elim exE conjE)
  then show "\<exists>i. A \<inter> job_ids (bjobs i) = {}" ..
next
  assume "\<exists>i. A \<inter> job_ids (bjobs i) = {}"
  then obtain n where "A \<inter> job_ids (bjobs n) = {}" ..
  then show "\<exists>w'. wait_jobs d_type A bjobs 0 w = Some w'"
    by (rule wait_jobs_returns) simp
next
  fix w'
  assume "wait_jobs d_type A bjobs 0 w = Some w'"
  from wait_jobs_Some [OF this] show "\<exists>n. A \<inter> job_ids (bjobs n) = {}
            \<and> (\<forall>j<n. A \<inter> job_ids (bjobs j) \<noteq> {})
            \<and> polls w' = polls w + n + 1
            \<and> slept w' = slept w + 10 * n"
    by auto
next
  assume stuck: "\<forall>i. A \<inter> job_ids (bjobs i) \<noteq> {}"
  show "wait_jobs d_type A bjobs 0 w = None"
  proof (cases "wait_jobs d_type A bjobs 0 w")
    case None
    then show ?thesis .
  next
    case (Some w')
    from wait_jobs_Some [OF this] obtain n where "A \<inter> job_ids (bjobs n) = {}"
      by (elim exE conjE)
    with stuck show ?thesis by simp
  qed
qed


lemma ex_job_ids:
  "job_ids (ex_bjobs 0) = {''101'', ''102''}" "job_ids (ex_bjobs 1) = {''102''}"
  "job_ids (ex_bjobs 2) = {}"
  by code_simp+

lemma ex_job_ids_stuck: "job_ids (ex_bjobs_stuck i) = {''101''}"
proof -
  have "job_ids (''JOBID USER STAT'' @ [CHR 0x0A] @ ''101 u RUN'' @ [CHR 0x0A]) = {''101''}"
    by code_simp
  then show ?thesis by (simp only: ex_bjobs_stuck_def)
qed

text \<open>
  Two started jobs and the three status queries above: the wait returns after three
  queries and twenty seconds of sleep. With the job that never leaves it does not return.
\<close>

theorem wait_jobs_returns_iff_witness:
  "(\<exists>w'. wait_jobs ''tum'' {''101'', ''102''} ex_bjobs 0 ex_world = Some w'
        \<and> polls w' = 3 \<and> slept w' = 20)
   \<and> {''101'', ''102''} \<inter> job_ids (ex_bjobs 0) \<noteq> {}
   \<and> {''101'', ''102''} \<inter> job_ids (ex_bjobs 1) \<noteq> {}
   \<and> {''101'', ''102''} \<inter> job_ids (ex_bjobs 2) = {}
   \<and> wait_jobs ''tum'' {''101''} ex_bjobs_stuck 0 ex_world = None"
proof -
  let ?A = "{''101'', ''102''}"
  note inst = wait_jobs_returns_iff [of "''tum''" ?A ex_bjobs ex_world]
  have q0: "?A \<inter> job_ids (ex_bjobs 0) \<noteq> {}"
    by (simp add: ex_job_ids)
  have q1: "?A \<inter> job_ids (ex_bjobs 1) \<noteq> {}"
    by (simp only: ex_job_ids) simp
  have q2: "?A \<inter> job_ids (ex_bjobs 2) = {}"
    by (simp add: ex_job_ids)
  from inst have iff: "(\<exists>w'. wait_jobs ''tum'' ?A ex_bjobs 0 ex_world = Some w')
      \<longleftrightarrow> (\<exists>i. ?A \<inter> job_ids (ex_bjobs i) = {})"
    by (rule conjunct1)
  from inst have res: "\<forall>w'. wait_jobs ''tum'' ?A ex_bjobs 0 ex_world = Some w' \<longrightarrow>
         (\<exists>n. ?A \<inter> job_ids (ex_bjobs n) = {}
            \<and> (\<forall>j<n. ?A \<inter> job_ids (ex_bjobs j) \<noteq> {})
            \<and> polls w' = polls ex_world + n + 1
            \<and> slept w' = slept ex_world + 10 * n)"
    by (elim conjE)
  from q2 have "\<exists>i. ?A \<inter> job_ids (ex_bjobs i) = {}" by (rule exI)
  with iff have "\<exists>w'. wait_jobs ''tum'' ?A ex_bjobs 0 ex_world = Some w'"
    by (rule iffD2)
  then obtain w' where w': "wait_jobs ''tum'' ?A ex_bjobs 0 ex_world = Some w'" ..
  from res [rule_format, OF w'] obtain n where
    n1: "?A \<inter> job_ids (ex_bjobs n) = {}" and
    n2: "\<forall>j<n. ?A \<inter> job_ids (ex_bjobs j) \<noteq> {}" and
    n3: "polls w' = polls ex_world + n + 1" and
    n4: "slept w' = slept ex_world + 10 * n"
    by (elim exE conjE)
  have a: "n \<noteq> 0"
  proof
    assume "n = 0"
    with n1 have "?A \<inter> job_ids (ex_bjobs 0) = {}" by (simp only:)
    with q0 show False by (rule notE)
  qed
  have b: "n \<noteq> 1"
  proof
    assume "n = 1"
    with n1 have "?A \<inter> job_ids (ex_bjobs 1) = {}" by (simp only:)
    with q1 show False by (rule notE)
  qed
  have c: "\<not> 2 < n"
  proof
    assume "2 < n"
    from n2 [rule_format, OF this] q2 show False by (rule notE)
  qed
  from a b c have "n = 2" by arith
  with n3 n4 have "polls w' = 3" "slept w' = 20"
    by (simp_all add: ex_world_def)
  with w' have first: "\<exists>w'. wait_jobs ''tum'' ?A ex_bjobs 0 ex_world = Some w'
        \<and> polls w' = 3 \<and> slept w' = 20"
    by (intro exI [of _ w'] conjI)
  have "\<forall>i. {''101''} \<inter> job_ids (ex_bjobs_stuck i) \<noteq> {}"
    by (simp only: ex_job_ids_stuck) simp
  with wait_jobs_returns_iff [of "''tum''" "{''101''}" ex_bjobs_stuck ex_world]
  have stuck: "wait_jobs ''tum'' {''101''} ex_bjobs_stuck 0 ex_world = None"
    by (elim conjE) (rule mp)
  from first q0 q1 q2 stuck show ?thesis
    by (intro conjI)
qed

section \<open>Building the command\<close>

lemma get_lsf_command_unknown:
  assumes "d_type \<notin> {''discoman_v10'', ''discoman_debug'', ''kitti_4/6'', ''tum'', ''tum_debug''}"
  shows "get_lsf_command self e d_type rn = Inl (RuntimeError ''Unknown dataset_type'')"
  using assms by (simp add: get_lsf_command_def)

lemma get_lsf_command_known:
  assumes "d_type \<in> {''discoman_v10'', ''discoman_debug'', ''kitti_4/6'', ''tum'', ''tum_debug''}"
  shows "\<exists>cmd. get_lsf_command self e d_type rn = Inr cmd"
proof -
  have "\<exists>root. (if d_type = ''discoman_v10'' then Inr (DISCOMAN_V10_PATH e)
            else if d_type = ''discoman_debug'' then Inr (DISCOMAN_V10_PATH e)
            else if d_type = ''kitti_4/6'' then Inr (KITTI_PATH e)
            else if d_type = ''tum'' then Inr (TUM_PATH e)
            else if d_type = ''tum_debug'' then Inr (TUM_PATH e)
            else Inl (RuntimeError ''Unknown dataset_type'')) = (Inr root :: error + string)"
    using assms by (simp only: insert_iff empty_iff) (elim disjE FalseE; simp)
  then obtain root where "(if d_type = ''discoman_v10'' then Inr (DISCOMAN_V10_PATH e)
            else if d_type = ''discoman_debug'' then Inr (DISCOMAN_V10_PATH e)
            else if d_type = ''kitti_4/6'' then Inr (KITTI_PATH e)
            else if d_type = ''tum'' then Inr (TUM_PATH e)
            else if d_type = ''tum_debug'' then Inr (TUM_PATH e)
            else Inl (RuntimeError ''Unknown dataset_type'')) = (Inr root :: error + string)" ..
  then show ?thesis
    by (simp only: get_lsf_command_def sum.case) (rule exI, rule refl)
qed

lemma submit_job_unknown:
  assumes "get_lsf_command self e d_type (run_name self @ ''_b_'' @ str_nat b) = Inl err"
  shows "submit_job self e d_type b p w = (Inl err, w)"
  using assms by (simp add: submit_job_def)

text \<open>
  C7. For a dataset type that is none of the five names \<open>get_lsf_command\<close> knows, the
  command is not built: \<open>get_lsf_command\<close> raises \<^verbatim>\<open>RuntimeError('Unknown dataset_type')\<close> (the
  ConfigurationError of the specification), \<open>submit_job\<close> raises it before it calls the
  scheduler and leaves the world as it was, and a bundle of at least one job ends with it
  after the first log record, with nothing submitted, no status query made and the
  tracking service untouched.
\<close>

theorem unknown_dataset_fails_first:
  assumes "d_type \<notin> {''discoman_v10'', ''discoman_debug'', ''kitti_4/6'', ''tum'', ''tum_debug''}"
  shows "get_lsf_command self e d_type rn = Inl (RuntimeError ''Unknown dataset_type'')
     \<and> submit_job self e d_type b p w = (Inl (RuntimeError ''Unknown dataset_type''), w)
     \<and> (0 < bundle_size self \<longrightarrow>
          (\<exists>w'. submit_bundle self e bsub bjobs d_type w
                   = Some (Inl (RuntimeError ''Unknown dataset_type''), w')
             \<and> w' = logger_info (StartedSubmitting d_type) w
             \<and> submitted w' = submitted w \<and> polls w' = polls w
             \<and> tracking w' = tracking w))"
proof (intro conjI impI)
  show "get_lsf_command self e d_type rn = Inl (RuntimeError ''Unknown dataset_type'')"
    using assms by (rule get_lsf_command_unknown)
next
  show "submit_job self e d_type b p w = (Inl (RuntimeError ''Unknown dataset_type''), w)"
    by (rule submit_job_unknown) (rule get_lsf_command_unknown [OF assms])
next
  assume "0 < bundle_size self"
  then have "py_range (bundle_size self) = 0 # [1..<nat (bundle_size self)]"
    by (simp add: py_range_def upt_conv_Cons)
  moreover have "submit_job self e d_type 0 (bsub 0) (logger_info (StartedSubmitting d_type) w)
      = (Inl (RuntimeError ''Unknown dataset_type''), logger_info (StartedSubmitting d_type) w)"
    by (rule submit_job_unknown) (rule get_lsf_command_unknown [OF assms])
  ultimately have "submit_bundle self e bsub bjobs d_type w
      = Some (Inl (RuntimeError ''Unknown dataset_type''), logger_info (StartedSubmitting d_type) w)"
    by (simp add: submit_bundle_def)
  then show "\<exists>w'. submit_bundle self e bsub bjobs d_type w
                   = Some (Inl (RuntimeError ''Unknown dataset_type''), w')
             \<and> w' = logger_info (StartedSubmitting d_type) w
             \<and> submitted w' = submitted w \<and> polls w' = polls w
             \<and> tracking w' = tracking w"
    by (simp add: logger_info_def)
qed

theorem unknown_dataset_fails_first_witness:
  "''kitti'' \<notin> {''discoman_v10'', ''discoman_debug'', ''kitti_4/6'', ''tum'', ''tum_debug''}
   \<and> get_lsf_command ex_self ex_env ''kitti'' ''exp1_b_0''
        = Inl (RuntimeError ''Unknown dataset_type'')
   \<and> submit_job ex_self ex_env ''kitti'' 0 (ex_bsub 0) ex_world
        = (Inl (RuntimeError ''Unknown dataset_type''), ex_world)
   \<and> 0 < bundle_size ex_self
   \<and> submit_bundle ex_self ex_env ex_bsub ex_bjobs ''kitti'' ex_world
        = Some (Inl (RuntimeError ''Unknown dataset_type''),
                logger_info (StartedSubmitting ''kitti'') ex_world)"
proof -
  have h: "''kitti'' \<notin> {''discoman_v10'', ''discoman_debug'', ''kitti_4/6'', ''tum'', ''tum_debug''}"
    by simp
  have s: "0 < bundle_size ex_self" by (simp add: ex_self_def)
  note inst = unknown_dataset_fails_first [OF h, of ex_self ex_env "''exp1_b_0''" 0 "ex_bsub 0"
      ex_world ex_bsub ex_bjobs]
  from inst have a: "get_lsf_command ex_self ex_env ''kitti'' ''exp1_b_0''
        = Inl (RuntimeError ''Unknown dataset_type'')"
    by (rule conjunct1)
  from inst have b: "submit_job ex_self ex_env ''kitti'' 0 (ex_bsub 0) ex_world
        = (Inl (RuntimeError ''Unknown dataset_type''), ex_world)"
    by (elim conjE)
  from inst s have "\<exists>w'. submit_bundle ex_self ex_env ex_bsub ex_bjobs ''kitti'' ex_world
                   = Some (Inl (RuntimeError ''Unknown dataset_type''), w')
             \<and> w' = logger_info (StartedSubmitting ''kitti'') ex_world
             \<and> submitted w' = submitted ex_world \<and> polls w' = polls ex_world
             \<and> tracking w' = tracking ex_world"
    by (elim conjE) (rule mp)
  then have c: "submit_bundle ex_self ex_env ex_bsub ex_bjobs ''kitti'' ex_world
        = Some (Inl (RuntimeError ''Unknown dataset_type''),
                logger_info (StartedSubmitting ''kitti'') ex_world)"
    by (elim exE conjE) (simp only:)
  from h a b s c show ?thesis by (intro conjI)
qed

section \<open>Submitting a bundle\<close>

lemma submit_job_acked:
  assumes "get_lsf_command self e d_type (run_name self @ ''_b_'' @ str_nat b) = Inr cmd"
    and "p = Outs outs" and "job_id_of outs = Inr job_id"
  shows "\<exists>w'. submit_job self e d_type b p w = (Inr job_id, w')
           \<and> submitted w' = submitted w @ [cmd]
           \<and> polls w' = polls w \<and> slept w' = slept w \<and> tracking w' = tracking w"
  using assms by (simp add: submit_job_def Let_def logger_info_def)



lemma submit_jobs_upt:
  assumes "\<And>b. get_lsf_command self e d_type (run_name self @ ''_b_'' @ str_nat b) = Inr (cmd b)"
    and "\<forall>b. i \<le> b \<and> b < n \<longrightarrow> (\<exists>outs. bsub b = Outs outs \<and> job_id_of outs = Inr (h b))"
  shows "\<exists>w'. submit_jobs self e bsub d_type [i..<n] ids w = (Inr (ids \<union> h ` {i..<n}), w')
           \<and> submitted w' = submitted w @ map cmd [i..<n]"
  using assms(2)
proof (induction "n - i" arbitrary: i ids w)
  case 0
  then have "[i..<n] = []" "{i..<n} = {}" by simp_all
  then show ?case by simp
next
  case (Suc k)
  then have lt: "i < n" and k: "k = n - Suc i" by simp_all
  from Suc.prems lt obtain outs where o: "bsub i = Outs outs" "job_id_of outs = Inr (h i)"
    by blast
  from submit_job_acked [OF assms(1) o] obtain w1 where
    s: "submit_job self e d_type i (bsub i) w = (Inr (h i), w1)" and
    w1: "submitted w1 = submitted w @ [cmd i]"
    by blast
  from Suc.prems have "\<forall>b. Suc i \<le> b \<and> b < n \<longrightarrow>
      (\<exists>outs. bsub b = Outs outs \<and> job_id_of outs = Inr (h b))"
    by simp
  from Suc.hyps(1) [OF k this, of "insert (h i) ids" w1] obtain w' where
    r: "submit_jobs self e bsub d_type [Suc i..<n] (insert (h i) ids) w1
          = (Inr (insert (h i) ids \<union> h ` {Suc i..<n}), w')" and
    w': "submitted w' = submitted w1 @ map cmd [Suc i..<n]"
    by blast
  from lt have "{i..<n} = insert i {Suc i..<n}" by auto
  then have "insert (h i) ids \<union> h ` {Suc i..<n} = ids \<union> h ` {i..<n}" by auto
  with r s w1 w' lt show ?case
    by (simp add: upt_conv_Cons)
qed

lemma ex_bsub_job_ids:
  "ex_bsub 0 = Outs (''Job <101> is submitted to default queue <normal>.'' @ [CHR 0x0A])"
  "ex_bsub 1 = Outs (''Job <102> is submitted to default queue <normal>.'' @ [CHR 0x0A])"
  "job_id_of (''Job <101> is submitted to default queue <normal>.'' @ [CHR 0x0A]) = Inr ''101''"
  "job_id_of (''Job <102> is submitted to default queue <normal>.'' @ [CHR 0x0A]) = Inr ''102''"
  by code_simp+

section \<open>The concrete scheduler\<close>



section \<open>Reading the job identifier\<close>

lemma hexdigits_not_space: "n < 16 \<Longrightarrow> hexdigits ! n \<noteq> CHR '' ''"
proof -
  assume "n < 16"
  then have "hexdigits ! n \<in> set hexdigits"
    by (intro nth_mem) (simp add: hexdigits_def)
  moreover have "CHR '' '' \<notin> set hexdigits"
    by (simp add: hexdigits_def)
  ultimately show ?thesis by auto
qed

lemma bytes_quote_cases: "bytes_quote bs = CHR 0x27 \<or> bytes_quote bs = CHR 0x22"
  by (simp add: bytes_quote_def)

lemma space_in_escape_byte:
  assumes "q = CHR 0x27 \<or> q = CHR 0x22"
  shows "CHR '' '' \<in> set (escape_byte q c) \<longleftrightarrow> c = CHR '' ''"
proof (cases "c = CHR '' ''")
  case True
  with assms show ?thesis by (auto simp: escape_byte_def)
next
  case False
  have "(of_char c :: nat) div 16 < 16"
    by (rule less_mult_imp_div_less) simp
  moreover have "(of_char c :: nat) mod 16 < 16"
    by simp
  ultimately have "hexdigits ! (of_char c div 16) \<noteq> CHR '' ''" "hexdigits ! (of_char c mod 16) \<noteq> CHR '' ''"
    by (simp_all add: hexdigits_not_space)
  with False show ?thesis
    by (simp add: escape_byte_def)
qed

lemma space_in_escaped:
  assumes "q = CHR 0x27 \<or> q = CHR 0x22"
  shows "CHR '' '' \<in> set (concat (map (escape_byte q) bs)) \<longleftrightarrow> CHR '' '' \<in> set bs"
  using space_in_escape_byte [OF assms] by (induction bs) auto

lemma space_in_str_bytes: "CHR '' '' \<in> set (str_bytes outs) \<longleftrightarrow> CHR '' '' \<in> set outs"
proof -
  from bytes_quote_cases [of outs] have "bytes_quote outs \<noteq> CHR '' ''" by auto
  with space_in_escaped [OF bytes_quote_cases, of outs outs] show ?thesis
    by (simp add: str_bytes_def Let_def)
qed

lemma py_split_sep:
  assumes "c \<in> set s"
  shows "\<exists>t u us. py_split c s = t # u # us"
proof -
  from assms obtain a b where s: "s = a @ c # b" and a: "c \<notin> set a"
    by (auto dest: split_list_first)
  obtain u us where "py_split c b = u # us"
    using py_split_not_Nil [of c b] by (cases "py_split c b") auto
  with s a show ?thesis
    by (simp add: py_split_append_sep py_split_no_sep)
qed

lemma job_id_of_IndexError: "job_id_of outs = Inl IndexError \<longleftrightarrow> CHR '' '' \<notin> set outs"
proof (cases "CHR '' '' \<in> set outs")
  case True
  then have "CHR '' '' \<in> set (str_bytes outs)" by (simp add: space_in_str_bytes)
  from py_split_sep [OF this] obtain t u us where
    "py_split CHR '' '' (str_bytes outs) = t # u # us"
    by (elim exE)
  then have "job_id_of outs = Inr (slice_1_m1 u)"
    by (simp add: job_id_of_def py_index_def)
  with True show ?thesis by simp
next
  case False
  then have "CHR '' '' \<notin> set (str_bytes outs)" by (simp add: space_in_str_bytes)
  then have "py_split CHR '' '' (str_bytes outs) = [str_bytes outs]"
    by (rule py_split_no_sep)
  with False show ?thesis
    by (simp add: job_id_of_def py_index_def)
qed

lemma job_id_of_cases:
  "job_id_of outs = Inl IndexError \<or> (\<exists>job_id. job_id_of outs = Inr job_id)"
  by (auto simp: job_id_of_def py_index_def)

lemma job_id_of_second_token:
  "job_id_of outs =
     (case py_split CHR '' '' (str_bytes outs) of
        t0 # tok # ts \<Rightarrow> Inr (butlast (tl tok))
      | _ \<Rightarrow> Inl IndexError)"
  by (auto simp: job_id_of_def py_index_def slice_1_m1_def split: list.splits)

lemma escape_plain:
  assumes "q = CHR 0x27 \<or> q = CHR 0x22" and "plain_byte c"
  shows "escape_byte q c = [c]"
proof -
  from assms(2) have "c \<noteq> CHR 0x09" "c \<noteq> CHR 0x0A" "c \<noteq> CHR 0x0D"
    by (auto simp: plain_byte_def)
  with assms show ?thesis
    by (auto simp: escape_byte_def plain_byte_def)
qed

lemma escaped_plain:
  assumes "q = CHR 0x27 \<or> q = CHR 0x22" and "\<forall>c \<in> set h. plain_byte c"
  shows "concat (map (escape_byte q) h) = h"
  using assms(2) by (induction h) (simp_all add: escape_plain [OF assms(1)])

lemma job_id_of_layout:
  assumes a: "CHR '' '' \<notin> set a" and h: "CHR '' '' \<notin> set h" and p: "\<forall>c \<in> set h. plain_byte c"
  shows "job_id_of (a @ '' <'' @ h @ ''> '' @ rest) = Inr h"
proof -
  define outs where "outs = a @ '' <'' @ h @ ''> '' @ rest"
  define q where "q = bytes_quote outs"
  have q: "q = CHR 0x27 \<or> q = CHR 0x22"
    unfolding q_def by (rule bytes_quote_cases)
  let ?esc = "\<lambda>bs. concat (map (escape_byte q) bs)"
  have pl: "plain_byte CHR ''<''" "plain_byte CHR ''>''" "plain_byte CHR '' ''"
    by (simp_all add: plain_byte_def)
  have e: "escape_byte q CHR '' '' = '' ''" "escape_byte q CHR ''<'' = ''<''"
    "escape_byte q CHR ''>'' = ''>''"
    using pl by (simp_all only: escape_plain [OF q])
  have eh: "?esc h = h"
    using q p by (rule escaped_plain)
  have "?esc outs = ?esc a @ CHR '' '' # (CHR ''<'' # h @ ''>'') @ CHR '' '' # ?esc rest"
    by (simp add: outs_def e eh)
  then have str: "str_bytes outs
      = (CHR ''b'' # q # ?esc a) @ CHR '' '' # (CHR ''<'' # h @ ''>'') @ CHR '' '' # (?esc rest @ [q])"
    by (simp add: str_bytes_def Let_def q_def [symmetric])
  from q have nq: "q \<noteq> CHR '' ''" by auto
  from a have "CHR '' '' \<notin> set (?esc a)"
    by (simp only: space_in_escaped [OF q] not_False_eq_True)
  with nq have first: "CHR '' '' \<notin> set (CHR ''b'' # q # ?esc a)" by auto
  from h have second: "CHR '' '' \<notin> set (CHR ''<'' # h @ ''>'')" by simp
  have "py_split CHR '' '' (str_bytes outs)
      = [CHR ''b'' # q # ?esc a] @ [CHR ''<'' # h @ ''>''] @ py_split CHR '' '' (?esc rest @ [q])"
    unfolding str
    by (simp only: py_split_append_sep py_split_no_sep [OF first] py_split_no_sep [OF second])
  then have "job_id_of outs = Inr h"
    by (simp add: job_id_of_def py_index_def slice_1_m1_def)
  then show ?thesis by (simp only: outs_def)
qed


text \<open>
  C8, as the specification states it, fails. The scheduler's refusal
  \<^verbatim>\<open>Request aborted by esub. Job not submitted.\<close> does not have the layout of section 6, and
  \<open>submit_job\<close> returns the job identifier \<^verbatim>\<open>borte\<close> for it instead of failing; where a tab
  separates the first two tokens, the identifier of section 6 is \<^verbatim>\<open>12345\<close> and \<open>submit_job\<close>
  returns the empty text.
\<close>

theorem submit_job_accepts_any_second_token:
  "spec_job_handle (''Request aborted by esub. Job not submitted.'' @ [CHR 0x0A]) = None
   \<and> fst (submit_job ex_self ex_env ''tum'' 0
            (Outs (''Request aborted by esub. Job not submitted.'' @ [CHR 0x0A])) ex_world)
        = Inr ''borte''
   \<and> spec_job_handle (''Job'' @ [CHR 0x09] @ ''<12345> is submitted'') = Some ''12345''
   \<and> fst (submit_job ex_self ex_env ''tum'' 0
            (Outs (''Job'' @ [CHR 0x09] @ ''<12345> is submitted'')) ex_world)
        = Inr []"
  by (intro conjI; code_simp)

text \<open>
  C8, amended. When the command can be built, \<open>submit_job\<close> fails with \<^verbatim>\<open>TimeoutExpired\<close> (the
  SubmissionTimeout of the specification) when the scheduler does not answer in time.
  Otherwise the job identifier is the second piece of \<^verbatim>\<open>str(outs)\<close> split at single spaces,
  without its first and last character. It fails with \<^verbatim>\<open>IndexError\<close> (the
  SubmissionParseError) exactly when the output holds no space; an output with a space
  gives an identifier whatever the second piece is. For an output \<^verbatim>\<open>a <h> rest\<close>, where
  \<open>a\<close> and \<open>h\<close> hold no space and \<open>h\<close> only bytes shown as themselves, the identifier is
  \<open>h\<close>.
\<close>

theorem submit_job_reads_second_piece:
  assumes "get_lsf_command self e d_type (run_name self @ ''_b_'' @ str_nat b) = Inr cmd"
  shows "fst (submit_job self e d_type b Timeout w) = Inl TimeoutExpired
     \<and> fst (submit_job self e d_type b (Outs outs) w)
          = (case py_split CHR '' '' (str_bytes outs) of
               t0 # tok # ts \<Rightarrow> Inr (butlast (tl tok))
             | _ \<Rightarrow> Inl IndexError)
     \<and> (fst (submit_job self e d_type b (Outs outs) w) = Inl IndexError
          \<longleftrightarrow> CHR '' '' \<notin> set outs)
     \<and> (CHR '' '' \<in> set outs \<longrightarrow>
          (\<exists>job_id. fst (submit_job self e d_type b (Outs outs) w) = Inr job_id))
     \<and> (CHR '' '' \<notin> set a \<and> CHR '' '' \<notin> set h \<and> (\<forall>c \<in> set h. plain_byte c) \<longrightarrow>
          fst (submit_job self e d_type b (Outs (a @ '' <'' @ h @ ''> '' @ rest)) w) = Inr h)"
proof -
  have t: "fst (submit_job self e d_type b Timeout w) = Inl TimeoutExpired"
    using assms by (simp add: submit_job_def Let_def)
  have o: "fst (submit_job self e d_type b (Outs x) w) = job_id_of x" for x
    using assms by (simp add: submit_job_def Let_def)
  have some: "\<exists>job_id. job_id_of outs = Inr job_id" if "CHR '' '' \<in> set outs"
    using job_id_of_cases [of outs] job_id_of_IndexError [of outs] that by auto
  have layout: "job_id_of (a @ '' <'' @ h @ ''> '' @ rest) = Inr h"
    if "CHR '' '' \<notin> set a \<and> CHR '' '' \<notin> set h \<and> (\<forall>c \<in> set h. plain_byte c)"
    using that by (intro job_id_of_layout) simp_all
  from t some layout show ?thesis
    unfolding o
    by (intro conjI impI job_id_of_second_token job_id_of_IndexError)
qed

text \<open>
  The acknowledgement of the scheduler for the job 12345, a refusal without a space, and
  no answer.
\<close>

theorem submit_job_reads_second_piece_witness:
  "(\<exists>cmd. get_lsf_command ex_self ex_env ''tum'' (run_name ex_self @ ''_b_'' @ str_nat 0)
            = Inr cmd)
   \<and> CHR '' '' \<notin> set ''Job'' \<and> CHR '' '' \<notin> set ''12345'' \<and> list_all plain_byte ''12345''
   \<and> fst (submit_job ex_self ex_env ''tum'' 0
            (Outs (''Job <12345> is submitted to default queue <normal>.'' @ [CHR 0x0A]))
            ex_world) = Inr ''12345''
   \<and> fst (submit_job ex_self ex_env ''tum'' 0 (Outs ''Error'') ex_world) = Inl IndexError
   \<and> fst (submit_job ex_self ex_env ''tum'' 0 Timeout ex_world) = Inl TimeoutExpired"
proof -
  have k: "''tum'' \<in> {''discoman_v10'', ''discoman_debug'', ''kitti_4/6'', ''tum'', ''tum_debug''}"
    by simp
  from get_lsf_command_known [OF k] obtain cmd where
    cmd: "get_lsf_command ex_self ex_env ''tum'' (run_name ex_self @ ''_b_'' @ str_nat 0)
            = Inr cmd" ..
  have s: "CHR '' '' \<notin> set ''Job''" "CHR '' '' \<notin> set ''12345''" by simp_all
  have p: "list_all plain_byte ''12345''" by (simp add: plain_byte_def)
  then have p': "\<forall>c \<in> set ''12345''. plain_byte c" by (simp only: list_all_iff)
  note inst = submit_job_reads_second_piece [OF cmd, of ex_world]
  from inst [of "''Error''" "''Job''" "''12345''"
      "''is submitted to default queue <normal>.'' @ [CHR 0x0A]"] s p'
  have "fst (submit_job ex_self ex_env ''tum'' 0
      (Outs (''Job'' @ '' <'' @ ''12345'' @ ''> ''
             @ ''is submitted to default queue <normal>.'' @ [CHR 0x0A])) ex_world) = Inr ''12345''"
    by (elim conjE) (rule mp, assumption, intro conjI)
  then have a: "fst (submit_job ex_self ex_env ''tum'' 0
            (Outs (''Job <12345> is submitted to default queue <normal>.'' @ [CHR 0x0A]))
            ex_world) = Inr ''12345''"
    by simp
  have "CHR '' '' \<notin> set ''Error''" by simp
  with inst [of "''Error''" "[]" "[]" "[]"]
  have b: "fst (submit_job ex_self ex_env ''tum'' 0 (Outs ''Error'') ex_world) = Inl IndexError"
    by (elim conjE) (rule iffD2)
  from inst [of "[]" "[]" "[]" "[]"]
  have c: "fst (submit_job ex_self ex_env ''tum'' 0 Timeout ex_world) = Inl TimeoutExpired"
    by (rule conjunct1)
  from cmd have ex: "\<exists>cmd. get_lsf_command ex_self ex_env ''tum''
      (run_name ex_self @ ''_b_'' @ str_nat 0) = Inr cmd" ..
  from ex s p a b c show ?thesis by (intro conjI)
qed

section \<open>What the steps of a pipeline keep\<close>



lemma wait_jobs_keeps:
  assumes "wait_jobs d_type A bjobs i w = Some w'"
  shows "refuses w' = refuses w \<and> (\<exists>ls. log w' = log w @ ls)"
  using assms
proof (induction d_type A bjobs i w w' rule: wait_jobs.raw_induct [rotated 1, consumes 1, case_names step])
  case (step wait d_type A bjobs i w w')
  show ?case
  proof (cases "A \<inter> job_ids (bjobs i) = {}")
    case True
    with step(2) have "w' = logger_info (AllFinished d_type)
        (logger_info (StillRunning d_type {}) (w\<lparr>polls := polls w + 1\<rparr>))"
      by (simp add: Let_def)
    then show ?thesis by (simp add: logger_info_def)
  next
    case False
    define w2 where "w2 = (logger_info (StillRunning d_type (A \<inter> job_ids (bjobs i)))
        (w\<lparr>polls := polls w + 1\<rparr>))\<lparr>slept := slept w + 10\<rparr>"
    have w2: "refuses w2 = refuses w"
      "log w2 = log w @ [StillRunning d_type (A \<inter> job_ids (bjobs i))]"
      by (simp_all add: w2_def logger_info_def)
    from step(2) False have "wait d_type A bjobs (Suc i) w2 = Some w'"
      by (simp add: Let_def w2_def logger_info_def)
    from step(1) [OF this] obtain ls where "refuses w' = refuses w2" "log w' = log w2 @ ls"
      by (elim exE conjE)
    with w2 show ?thesis by simp
  qed
qed

lemma log_calls_tag: "log_calls refused cs r = (res, r') \<Longrightarrow> tag_name r' = tag_name r"
proof (induction cs arbitrary: r)
  case Nil
  then show ?case by simp
next
  case (Cons c cs)
  have "tag_name (apply_call c r) = tag_name r" by (cases c) simp_all
  with Cons show ?case by (auto split: if_splits)
qed

lemma log_calls_Some: "log_calls refused cs r = (Some err, r') \<Longrightarrow> err = MlflowException"
  by (induction cs arbitrary: r) (auto split: if_splits)

lemma start_run_fields:
  "submitted (start_run d_type r w) = submitted w" "log (start_run d_type r w) = log w"
  "refuses (start_run d_type r w) = refuses w" "polls (start_run d_type r w) = polls w"
  "d \<noteq> d_type \<Longrightarrow> tracking (start_run d_type r w) d = tracking w d"
  by (simp_all add: start_run_def)

lemma average_metrics_cases:
  assumes "average_metrics self e d_type w = (res, w')"
  shows "w' = w
     \<or> (\<exists>r rs. tracking w d_type = Some rs \<and> w' = start_run d_type r w
           \<and> tag_name r = run_name self @ ''_av''
           \<and> \<not> refuses w (Set_experiment d_type)
           \<and> \<not> refuses w (Start_run (run_name self @ ''_av''))
           \<and> (res = Inr () \<or> res = Inl MlflowException))"
proof (cases "load_metrics self w d_type")
  case (Inl err)
  with assms show ?thesis by (simp add: average_metrics_def)
next
  case (Inr p)
  obtain ms mn where p: "p = (ms, mn)" by (cases p)
  from Inr p obtain rs where t: "tracking w d_type = Some rs"
    by (auto simp: load_metrics_def split: option.splits)
  show ?thesis
  proof (cases "aggregate_metrics ms")
    case (Inl err)
    with assms Inr p show ?thesis by (simp add: average_metrics_def)
  next
    case agg: (Inr agg)
    show ?thesis
    proof (cases "refuses w (Set_experiment d_type)
        \<or> refuses w (Start_run (run_name self @ ''_av''))")
      case True
      with assms Inr p agg show ?thesis by (simp add: average_metrics_def)
    next
      case False
      let ?r0 = "\<lparr>tag_name = run_name self @ ''_av'', params = [], metrics = []\<rparr>"
      obtain lr r where lc: "log_calls (refuses w) (summary_calls self e ms mn agg) ?r0 = (lr, r)"
        by (cases "log_calls (refuses w) (summary_calls self e ms mn agg) ?r0")
      from log_calls_tag [OF lc] have tag: "tag_name r = run_name self @ ''_av''" by simp
      have "w' = start_run d_type r w \<and> (res = Inr () \<or> res = Inl MlflowException)"
      proof (cases lr)
        case None
        with assms Inr p agg False lc show ?thesis by (simp add: average_metrics_def)
      next
        case (Some err)
        with lc log_calls_Some have "err = MlflowException" by blast
        with Some assms Inr p agg False lc show ?thesis by (simp add: average_metrics_def)
      qed
      with t tag False show ?thesis by blast
    qed
  qed
qed

lemma average_metrics_keeps:
  assumes "average_metrics self e d_type w = (res, w')"
  shows "submitted w' = submitted w" "log w' = log w" "refuses w' = refuses w"
    "d \<noteq> d_type \<Longrightarrow> tracking w' d = tracking w d"
  using average_metrics_cases [OF assms] by (auto simp: start_run_fields)



section \<open>The handles of a bundle\<close>

text \<open>
  C6. For a known dataset type and a scheduler that acknowledges each of the \<open>N\<close>
  submissions with an output from which a job identifier is read, the identifiers being
  pairwise distinct, \<open>submit_bundle\<close> hands exactly the \<open>N\<close> commands of the bundle indices
  \<open>0, \<dots>, N - 1\<close> to the scheduler, in that order, and the set it then waits for is the set of
  the \<open>N\<close> identifiers: it is what \<open>wait_jobs\<close> is called with, and whenever \<open>submit_bundle\<close>
  returns, it returns normally, the commands handed over are those \<open>N\<close> and the set is in
  its log. \<open>N\<close> is the bundle size, none for a size below one.
\<close>

theorem submit_bundle_size_handles:
  assumes "d_type \<in> {''discoman_v10'', ''discoman_debug'', ''kitti_4/6'', ''tum'', ''tum_debug''}"
    and "\<forall>b < nat (bundle_size self). \<exists>outs. bsub b = Outs outs \<and> job_id_of outs = Inr (h b)"
    and "inj_on h {..<nat (bundle_size self)}"
  shows "\<exists>w1 cmds.
           card (h ` {..<nat (bundle_size self)}) = nat (bundle_size self)
         \<and> length cmds = nat (bundle_size self)
         \<and> map Inr cmds = map (\<lambda>b. get_lsf_command self e d_type
                                   (run_name self @ ''_b_'' @ str_nat b))
                             [0..<nat (bundle_size self)]
         \<and> submitted w1 = submitted w @ cmds
         \<and> submit_bundle self e bsub bjobs d_type w =
             (case wait_jobs d_type (h ` {..<nat (bundle_size self)}) bjobs 0
                     (logger_info (StartedJobs d_type (h ` {..<nat (bundle_size self)})) w1) of
                None \<Rightarrow> None
              | Some w2 \<Rightarrow>
                  (case average_metrics self e d_type
                          (logger_info (AveragingMetrics d_type) w2) of
                     (Inl err, w3) \<Rightarrow> Some (Inr (), logger_info (LoggedException err) w3)
                   | (Inr u, w3) \<Rightarrow> Some (Inr (), w3)))
         \<and> (\<forall>res w'. submit_bundle self e bsub bjobs d_type w = Some (res, w') \<longrightarrow>
               res = Inr ()
               \<and> submitted w' = submitted w @ cmds
               \<and> StartedJobs d_type (h ` {..<nat (bundle_size self)}) \<in> set (log w'))"
proof -
  let ?N = "nat (bundle_size self)"
  let ?ids = "h ` {..<?N}"
  let ?w0 = "logger_info (StartedSubmitting d_type) w"
  have "\<forall>b. \<exists>c. get_lsf_command self e d_type (run_name self @ ''_b_'' @ str_nat b) = Inr c"
    by (intro allI get_lsf_command_known [OF assms(1)])
  from choice [OF this] obtain cmd where
    "\<forall>b. get_lsf_command self e d_type (run_name self @ ''_b_'' @ str_nat b) = Inr (cmd b)" ..
  then have cmd: "get_lsf_command self e d_type (run_name self @ ''_b_'' @ str_nat b) = Inr (cmd b)"
    for b ..
  from assms(2) have "\<forall>b. 0 \<le> b \<and> b < ?N \<longrightarrow>
      (\<exists>outs. bsub b = Outs outs \<and> job_id_of outs = Inr (h b))"
    by simp
  from submit_jobs_upt [of self e d_type cmd 0 ?N bsub h "{}" ?w0, OF cmd this]
  obtain w1 where
    r: "submit_jobs self e bsub d_type [0..<?N] {} ?w0 = (Inr ({} \<union> h ` {0..<?N}), w1)" and
    w1: "submitted w1 = submitted ?w0 @ map cmd [0..<?N]"
    by blast
  have set: "{} \<union> h ` {0..<?N} = ?ids"
    by (simp add: atLeast0LessThan)
  from assms(3) have card: "card ?ids = ?N"
    by (simp add: card_image)
  let ?cmds = "map cmd [0..<?N]"
  have len: "length ?cmds = ?N" by simp
  have cmds: "map Inr ?cmds
      = map (\<lambda>b. get_lsf_command self e d_type (run_name self @ ''_b_'' @ str_nat b)) [0..<?N]"
    by (simp only: map_map o_def cmd)
  from w1 have sub: "submitted w1 = submitted w @ ?cmds"
    by (simp add: logger_info_def)
  from r set have s: "submit_jobs self e bsub d_type (py_range (bundle_size self)) {} ?w0
      = (Inr ?ids, w1)"
    by (simp add: py_range_def)
  let ?w1 = "logger_info (StartedJobs d_type ?ids) w1"
  have run: "submit_bundle self e bsub bjobs d_type w =
      (case wait_jobs d_type ?ids bjobs 0 ?w1 of
         None \<Rightarrow> None
       | Some w2 \<Rightarrow>
           (case average_metrics self e d_type (logger_info (AveragingMetrics d_type) w2) of
              (Inl err, w3) \<Rightarrow> Some (Inr (), logger_info (LoggedException err) w3)
            | (Inr u, w3) \<Rightarrow> Some (Inr (), w3)))"
    by (simp add: submit_bundle_def s)
  have ret: "res = Inr () \<and> submitted w' = submitted w @ ?cmds
      \<and> StartedJobs d_type ?ids \<in> set (log w')"
    if "submit_bundle self e bsub bjobs d_type w = Some (res, w')" for res w'
  proof -
    from that run obtain w2 where wt: "wait_jobs d_type ?ids bjobs 0 ?w1 = Some w2"
      by (cases "wait_jobs d_type ?ids bjobs 0 ?w1") simp_all
    from wait_jobs_Some [OF wt] have s2: "submitted w2 = submitted ?w1"
      by (elim exE conjE)
    from wait_jobs_keeps [OF wt] obtain ls where l2: "log w2 = log ?w1 @ ls"
      by (elim exE conjE)
    let ?w2 = "logger_info (AveragingMetrics d_type) w2"
    obtain ares w3 where av: "average_metrics self e d_type ?w2 = (ares, w3)"
      by (cases "average_metrics self e d_type ?w2")
    from average_metrics_keeps(1,2) [OF av] have k3: "submitted w3 = submitted ?w2"
      "log w3 = log ?w2" .
    from s2 sub k3 have s3: "submitted w3 = submitted w @ ?cmds"
      by (simp add: logger_info_def)
    from l2 k3 have l3: "StartedJobs d_type ?ids \<in> set (log w3)"
      by (simp add: logger_info_def)
    show ?thesis
    proof (cases ares)
      case (Inl err)
      with that run wt av have "res = Inr ()" "w' = logger_info (LoggedException err) w3"
        by simp_all
      with s3 l3 show ?thesis by (simp add: logger_info_def)
    next
      case (Inr u)
      with that run wt av have "res = Inr ()" "w' = w3"
        by simp_all
      with s3 l3 show ?thesis by simp
    qed
  qed
  from card len cmds sub run ret show ?thesis
    by (intro exI [of _ w1] exI [of _ ?cmds] conjI allI impI) blast+
qed


text \<open>
  A bundle of two jobs on the dataset \<^verbatim>\<open>tum\<close>: the pipeline returns, two commands have been
  handed over and the identifiers 101 and 102 were waited for.
\<close>

theorem submit_bundle_size_handles_witness:
  "''tum'' \<in> {''discoman_v10'', ''discoman_debug'', ''kitti_4/6'', ''tum'', ''tum_debug''}
   \<and> bundle_size ex_self = 2
   \<and> (\<exists>outs. ex_bsub 0 = Outs outs \<and> job_id_of outs = Inr ''101'')
   \<and> (\<exists>outs. ex_bsub 1 = Outs outs \<and> job_id_of outs = Inr ''102'')
   \<and> (\<exists>w'. submit_bundle ex_self ex_env ex_bsub ex_bjobs ''tum'' ex_world = Some (Inr (), w')
          \<and> length (submitted w') = 2
          \<and> StartedJobs ''tum'' {''101'', ''102''} \<in> set (log w'))
   \<and> card {''101'', ''102''} = (2 :: nat)"
proof -
  define h :: "nat \<Rightarrow> string" where "h b = (if b = 0 then ''101'' else ''102'')" for b
  have h0: "h 0 = ''101''" and h1: "h 1 = ''102''" by (simp_all add: h_def)
  have k: "''tum'' \<in> {''discoman_v10'', ''discoman_debug'', ''kitti_4/6'', ''tum'', ''tum_debug''}"
    by simp
  have n: "bundle_size ex_self = 2" by (simp add: ex_self_def)
  have a0: "\<exists>outs. ex_bsub 0 = Outs outs \<and> job_id_of outs = Inr ''101''"
    by (intro exI conjI) (rule ex_bsub_job_ids(1), rule ex_bsub_job_ids(3))
  have a1: "\<exists>outs. ex_bsub 1 = Outs outs \<and> job_id_of outs = Inr ''102''"
    by (intro exI conjI) (rule ex_bsub_job_ids(2), rule ex_bsub_job_ids(4))
  have acks: "\<forall>b < nat (bundle_size ex_self).
      \<exists>outs. ex_bsub b = Outs outs \<and> job_id_of outs = Inr (h b)"
  proof (intro allI impI)
    fix b assume "b < nat (bundle_size ex_self)"
    with n have "b = 0 \<or> b = 1" by auto
    then show "\<exists>outs. ex_bsub b = Outs outs \<and> job_id_of outs = Inr (h b)"
    proof
      assume "b = 0" with a0 show ?thesis by (simp only: h0)
    next
      assume "b = 1" with a1 show ?thesis by (simp only: h1)
    qed
  qed
  have img: "h ` {..<nat (bundle_size ex_self)} = {''101'', ''102''}"
  proof -
    have "{..<nat (bundle_size ex_self)} = {0, 1}" using n by auto
    then show ?thesis by (simp only: image_insert image_empty h0 h1)
  qed
  have inj: "inj_on h {..<nat (bundle_size ex_self)}"
  proof (rule inj_onI)
    fix x y assume "x \<in> {..<nat (bundle_size ex_self)}" "y \<in> {..<nat (bundle_size ex_self)}"
      and eq: "h x = h y"
    with n have "(x = 0 \<or> x = 1) \<and> (y = 0 \<or> y = 1)" by auto
    with eq h0 h1 show "x = y" by auto
  qed
  let ?A = "{''101'', ''102''}"
  from submit_bundle_size_handles [OF k acks inj, of ex_env ex_world ex_bjobs]
  obtain w1 cmds where
    c: "card (h ` {..<nat (bundle_size ex_self)}) = nat (bundle_size ex_self)" and
    l: "length cmds = nat (bundle_size ex_self)" and
    run: "submit_bundle ex_self ex_env ex_bsub ex_bjobs ''tum'' ex_world =
      (case wait_jobs ''tum'' (h ` {..<nat (bundle_size ex_self)}) ex_bjobs 0
              (logger_info (StartedJobs ''tum'' (h ` {..<nat (bundle_size ex_self)})) w1) of
         None \<Rightarrow> None
       | Some w2 \<Rightarrow>
           (case average_metrics ex_self ex_env ''tum''
                   (logger_info (AveragingMetrics ''tum'') w2) of
              (Inl err, w3) \<Rightarrow> Some (Inr (), logger_info (LoggedException err) w3)
            | (Inr u, w3) \<Rightarrow> Some (Inr (), w3)))" and
    ret: "\<forall>res w'. submit_bundle ex_self ex_env ex_bsub ex_bjobs ''tum'' ex_world
            = Some (res, w') \<longrightarrow>
          res = Inr () \<and> submitted w' = submitted ex_world @ cmds
          \<and> StartedJobs ''tum'' (h ` {..<nat (bundle_size ex_self)}) \<in> set (log w')"
    by (elim exE conjE)
  have "?A \<inter> job_ids (ex_bjobs 2) = {}"
    by (simp add: ex_job_ids)
  from wait_jobs_returns [of ?A ex_bjobs 2 0 "''tum''"
      "logger_info (StartedJobs ''tum'' ?A) w1", OF this le0]
  obtain w2 where wt: "wait_jobs ''tum'' ?A ex_bjobs 0 (logger_info (StartedJobs ''tum'' ?A) w1)
      = Some w2"
    by (elim exE)
  obtain ares w3 where av: "average_metrics ex_self ex_env ''tum''
      (logger_info (AveragingMetrics ''tum'') w2) = (ares, w3)"
    by (cases "average_metrics ex_self ex_env ''tum'' (logger_info (AveragingMetrics ''tum'') w2)")
  note run' = run [unfolded img]
  have "\<exists>res w'. submit_bundle ex_self ex_env ex_bsub ex_bjobs ''tum'' ex_world
      = Some (res, w')"
  proof (cases ares)
    case (Inl err)
    with av have "submit_bundle ex_self ex_env ex_bsub ex_bjobs ''tum'' ex_world
        = Some (Inr (), logger_info (LoggedException err) w3)"
      by (simp only: run' wt option.case prod.case sum.case)
    then show ?thesis by (intro exI)
  next
    case (Inr u)
    with av have "submit_bundle ex_self ex_env ex_bsub ex_bjobs ''tum'' ex_world
        = Some (Inr (), w3)"
      by (simp only: run' wt option.case prod.case sum.case)
    then show ?thesis by (intro exI)
  qed
  then obtain res w' where
    sb: "submit_bundle ex_self ex_env ex_bsub ex_bjobs ''tum'' ex_world = Some (res, w')"
    by (elim exE)
  note facts = ret [rule_format, OF sb]
  from facts have res: "res = Inr ()" by (rule conjunct1)
  from facts have sub: "submitted w' = submitted ex_world @ cmds"
    by (rule conjunct1 [OF conjunct2])
  from facts have lg: "StartedJobs ''tum'' (h ` {..<nat (bundle_size ex_self)}) \<in> set (log w')"
    by (rule conjunct2 [OF conjunct2])
  from sub l n have len: "length (submitted w') = 2"
    by (simp add: ex_world_def)
  from lg have lg': "StartedJobs ''tum'' ?A \<in> set (log w')"
    by (simp only: img)
  from sb res have sb': "submit_bundle ex_self ex_env ex_bsub ex_bjobs ''tum'' ex_world
      = Some (Inr (), w')"
    by simp
  from c n have card: "card ?A = (2 :: nat)"
    by (simp only: img) simp
  from sb' len lg' have whole:
    "\<exists>w'. submit_bundle ex_self ex_env ex_bsub ex_bjobs ''tum'' ex_world = Some (Inr (), w')
          \<and> length (submitted w') = 2
          \<and> StartedJobs ''tum'' ?A \<in> set (log w')"
    by (intro exI [of _ w'] conjI)
  from k n a0 a1 whole card show ?thesis
    by (intro conjI)
qed

section \<open>A failed aggregation\<close>








end
